theory Spec2Isabelle
  imports Main
begin

section \<open>The conformer-search example script (sdk/run.py)\<close>

text \<open>
  The script reads two environment variables, makes sure the folder \<open>output\<close> exists,
  builds one request per (SMILES, name) pair from a template dictionary, submits each
  request through the Promethium SDK, and then waits for every workflow, fetches its
  results and writes them to a file.

  The embedding keeps what the claims depend on:
  \<^item> Python objects live in an explicit store, so that \<open>copy.deepcopy\<close> and the in-place
    assignments to \<open>tmp_job_params\<close> are real allocations and mutations;
  \<^item> every call into the SDK is a parameter (the record \<open>sdk\<close>) that threads the state of
    the remote service and may fail;
  \<^item> the filesystem is a map from paths to entries;
  \<^item> an uncaught exception ends the run: every step returns either the exception or a
    value, together with the state reached;
  \<^item> every external call is appended to a trace, in program order.
\<close>

subsection \<open>Python values and the object store\<close>

type_synonym addr = nat

text \<open>
  Atomic values are stored inline; dictionaries and lists are objects in the store and
  are held by reference. A float is carried as the literal that denotes it: the script
  never computes with one.
\<close>

datatype pyval = VBool bool | VInt int | VFloat string | VStr string | VRef addr

datatype pyobj = ODict "(string \<times> pyval) list" | OList "pyval list"

type_synonym heap = "pyobj list"

text \<open>A nested literal, and the deep value of an object (what a reader of the object sees).\<close>

datatype json = JBool bool | JInt int | JFloat string | JStr string
  | JDict "(string \<times> json) list" | JList "json list"

datatype exn = KeyError string | TypeError | RecursionError
  | FileExistsError | FileNotFoundError | NotADirectoryError | IsADirectoryError
  | SdkError string

definition lookup :: "heap \<Rightarrow> addr \<Rightarrow> pyobj option" where
  "lookup h a = (if a < length h then Some (h ! a) else None)"

text \<open>\<open>d[k] = v\<close> on the items of a dict: an existing key keeps its position.\<close>

fun dict_set :: "(string \<times> 'v) list \<Rightarrow> string \<Rightarrow> 'v \<Rightarrow> (string \<times> 'v) list" where
  "dict_set [] k v = [(k, v)]"
| "dict_set ((k', v') # kvs) k v =
     (if k' = k then (k', v) # kvs else (k', v') # dict_set kvs k v)"

text \<open>
  Evaluating a dict or list display \<open>{...}\<close>, \<open>[...]\<close>: the nested displays are evaluated
  first, each one allocating a fresh object.
\<close>

fun display :: "json \<Rightarrow> heap \<Rightarrow> heap \<times> pyval"
  and display_items ::
    "(string \<times> json) list \<Rightarrow> (string \<times> pyval) list \<Rightarrow> heap \<Rightarrow> heap \<times> (string \<times> pyval) list"
  and display_elems :: "json list \<Rightarrow> heap \<Rightarrow> heap \<times> pyval list"
where
  "display (JBool b) h = (h, VBool b)"
| "display (JInt i) h = (h, VInt i)"
| "display (JFloat f) h = (h, VFloat f)"
| "display (JStr s) h = (h, VStr s)"
| "display (JDict kvs) h =
     (case display_items kvs [] h of (h1, items) \<Rightarrow> (h1 @ [ODict items], VRef (length h1)))"
| "display (JList js) h =
     (case display_elems js h of (h1, vs) \<Rightarrow> (h1 @ [OList vs], VRef (length h1)))"
| "display_items [] acc h = (h, acc)"
| "display_items ((k, j) # kvs) acc h =
     (case display j h of (h1, v) \<Rightarrow> display_items kvs (dict_set acc k v) h1)"
| "display_elems [] h = (h, [])"
| "display_elems (j # js) h =
     (case display j h of (h1, v) \<Rightarrow>
        (case display_elems js h1 of (h2, vs) \<Rightarrow> (h2, v # vs)))"

text \<open>Subscripting: \<open>d[k]\<close> and \<open>d[k] = v\<close>.\<close>

definition getitem :: "heap \<Rightarrow> pyval \<Rightarrow> string \<Rightarrow> exn + pyval" where
  "getitem h d k =
     (case d of
        VRef a \<Rightarrow>
          (case lookup h a of
             Some (ODict kvs) \<Rightarrow>
               (case map_of kvs k of Some v \<Rightarrow> Inr v | None \<Rightarrow> Inl (KeyError k))
           | _ \<Rightarrow> Inl TypeError)
      | _ \<Rightarrow> Inl TypeError)"

definition setitem :: "heap \<Rightarrow> pyval \<Rightarrow> string \<Rightarrow> pyval \<Rightarrow> exn + heap" where
  "setitem h d k v =
     (case d of
        VRef a \<Rightarrow>
          (case lookup h a of
             Some (ODict kvs) \<Rightarrow> Inr (h[a := ODict (dict_set kvs k v)])
           | _ \<Rightarrow> Inl TypeError)
      | _ \<Rightarrow> Inl TypeError)"

subsection \<open>copy.deepcopy\<close>

text \<open>
  \<open>copy.deepcopy(x)\<close> returns atomic values as they are. For a dict it creates an empty
  dict \<open>y\<close>, records \<open>memo[id(x)] = y\<close> and then stores the copy of every value under its
  key; a list is copied the same way with \<open>append\<close>. An object met again is answered from
  the memo. The recursion is bounded by a depth; with the memo no chain of nested copies
  is longer than the number of objects, which is the depth \<open>deepcopy\<close> passes.
\<close>

definition dict_store :: "heap \<Rightarrow> addr \<Rightarrow> string \<Rightarrow> pyval \<Rightarrow> heap" where
  "dict_store h y k v =
     (case lookup h y of Some (ODict kvs) \<Rightarrow> h[y := ODict (dict_set kvs k v)] | _ \<Rightarrow> h)"

definition list_append :: "heap \<Rightarrow> addr \<Rightarrow> pyval \<Rightarrow> heap" where
  "list_append h y v =
     (case lookup h y of Some (OList vs) \<Rightarrow> h[y := OList (vs @ [v])] | _ \<Rightarrow> h)"

type_synonym memo = "(addr \<times> addr) list"

type_synonym copier = "heap \<Rightarrow> memo \<Rightarrow> pyval \<Rightarrow> (heap \<times> memo \<times> pyval) option"

fun deepcopy_dict ::
  "copier \<Rightarrow> heap \<Rightarrow> memo \<Rightarrow> addr \<Rightarrow> (string \<times> pyval) list \<Rightarrow> (heap \<times> memo) option" where
  "deepcopy_dict cp h m y [] = Some (h, m)"
| "deepcopy_dict cp h m y ((k, v) # kvs) =
     (case cp h m v of
        None \<Rightarrow> None
      | Some (h1, m1, v') \<Rightarrow> deepcopy_dict cp (dict_store h1 y k v') m1 y kvs)"

fun deepcopy_list ::
  "copier \<Rightarrow> heap \<Rightarrow> memo \<Rightarrow> addr \<Rightarrow> pyval list \<Rightarrow> (heap \<times> memo) option" where
  "deepcopy_list cp h m y [] = Some (h, m)"
| "deepcopy_list cp h m y (v # vs) =
     (case cp h m v of
        None \<Rightarrow> None
      | Some (h1, m1, v') \<Rightarrow> deepcopy_list cp (list_append h1 y v') m1 y vs)"

definition deepcopy_obj :: "copier \<Rightarrow> heap \<Rightarrow> memo \<Rightarrow> addr \<Rightarrow> (heap \<times> memo \<times> pyval) option" where
  "deepcopy_obj cp h m a =
     (case lookup h a of
        None \<Rightarrow> None
      | Some (ODict kvs) \<Rightarrow>
          (case deepcopy_dict cp (h @ [ODict []]) ((a, length h) # m) (length h) kvs of
             None \<Rightarrow> None
           | Some (h', m') \<Rightarrow> Some (h', m', VRef (length h)))
      | Some (OList vs) \<Rightarrow>
          (case deepcopy_list cp (h @ [OList []]) ((a, length h) # m) (length h) vs of
             None \<Rightarrow> None
           | Some (h', m') \<Rightarrow> Some (h', m', VRef (length h))))"

primrec deepcopy_fuel :: "nat \<Rightarrow> copier" where
  "deepcopy_fuel 0 h m v =
     (case v of
        VRef a \<Rightarrow> (case map_of m a of Some y \<Rightarrow> Some (h, m, VRef y) | None \<Rightarrow> None)
      | _ \<Rightarrow> Some (h, m, v))"
| "deepcopy_fuel (Suc n) h m v =
     (case v of
        VRef a \<Rightarrow>
          (case map_of m a of
             Some y \<Rightarrow> Some (h, m, VRef y)
           | None \<Rightarrow> deepcopy_obj (deepcopy_fuel n) h m a)
      | _ \<Rightarrow> Some (h, m, v))"

definition deepcopy :: "heap \<Rightarrow> pyval \<Rightarrow> (heap \<times> pyval) option" where
  "deepcopy h v =
     (case deepcopy_fuel (Suc (length h)) h [] v of
        None \<Rightarrow> None
      | Some (h', m', v') \<Rightarrow> Some (h', v'))"

subsection \<open>The deep value of an object\<close>

text \<open>
  What \<open>CreateConformerSearchWorkflowRequest(**tmp_job_params)\<close> reads from the dict: the
  nested value, with every reference followed. A cyclic object has no deep value.
\<close>

fun reify_items ::
  "(pyval \<Rightarrow> json option) \<Rightarrow> (string \<times> pyval) list \<Rightarrow> (string \<times> json) list option" where
  "reify_items rf [] = Some []"
| "reify_items rf ((k, v) # kvs) =
     (case rf v of
        None \<Rightarrow> None
      | Some j \<Rightarrow> map_option (\<lambda>js. (k, j) # js) (reify_items rf kvs))"

fun reify_elems :: "(pyval \<Rightarrow> json option) \<Rightarrow> pyval list \<Rightarrow> json list option" where
  "reify_elems rf [] = Some []"
| "reify_elems rf (v # vs) =
     (case rf v of
        None \<Rightarrow> None
      | Some j \<Rightarrow> map_option (\<lambda>js. j # js) (reify_elems rf vs))"

definition reify_obj :: "(pyval \<Rightarrow> json option) \<Rightarrow> heap \<Rightarrow> addr \<Rightarrow> json option" where
  "reify_obj rf h a =
     (case lookup h a of
        None \<Rightarrow> None
      | Some (ODict kvs) \<Rightarrow> map_option JDict (reify_items rf kvs)
      | Some (OList vs) \<Rightarrow> map_option JList (reify_elems rf vs))"

definition reify_atom :: "pyval \<Rightarrow> json option" where
  "reify_atom v =
     (case v of
        VBool b \<Rightarrow> Some (JBool b)
      | VInt i \<Rightarrow> Some (JInt i)
      | VFloat f \<Rightarrow> Some (JFloat f)
      | VStr s \<Rightarrow> Some (JStr s)
      | VRef a \<Rightarrow> None)"

primrec reify :: "nat \<Rightarrow> heap \<Rightarrow> pyval \<Rightarrow> json option" where
  "reify 0 h v = reify_atom v"
| "reify (Suc n) h v =
     (case v of VRef a \<Rightarrow> reify_obj (reify n h) h a | _ \<Rightarrow> reify_atom v)"

definition snapshot :: "heap \<Rightarrow> pyval \<Rightarrow> json option" where
  "snapshot h v = reify (Suc (length h)) h v"

text \<open>Reading a field of a deep value.\<close>

definition jget :: "json \<Rightarrow> string \<Rightarrow> json option" where
  "jget j k = (case j of JDict kvs \<Rightarrow> map_of kvs k | _ \<Rightarrow> None)"

subsection \<open>The filesystem\<close>

text \<open>
  A path names a directory, a file with its contents, or nothing. Paths are compared as
  they are written (no symbolic links, no \<open>.\<close> or \<open>..\<close> components are resolved), and
  permissions are not modelled.
\<close>

datatype fsentry = Dir | File string

type_synonym filesystem = "string \<Rightarrow> fsentry option"

definition path_exists :: "filesystem \<Rightarrow> string \<Rightarrow> bool" where
  "path_exists fs p \<longleftrightarrow> fs p \<noteq> None"

text \<open>\<open>os.makedirs(p)\<close> for a name of one component.\<close>

definition makedirs :: "filesystem \<Rightarrow> string \<Rightarrow> exn + filesystem" where
  "makedirs fs p = (if path_exists fs p then Inl FileExistsError else Inr (fs(p \<mapsto> Dir)))"

text \<open>\<open>os.path.dirname\<close>: the part before the last slash, without its trailing slashes.\<close>

definition dirname :: "string \<Rightarrow> string" where
  "dirname p =
     (let head = rev (dropWhile (\<lambda>c. c \<noteq> CHR ''/'') (rev p))
      in if head \<noteq> [] \<and> \<not> list_all (\<lambda>c. c = CHR ''/'') head
         then rev (dropWhile (\<lambda>c. c = CHR ''/'') (rev head))
         else head)"

text \<open>
  \<open>with open(p, "w") as fp: fp.write(text)\<close>: the directory of \<open>p\<close> must be a directory
  and \<open>p\<close> itself must not be one; then \<open>p\<close> holds exactly \<open>text\<close>.
\<close>

definition write_text :: "filesystem \<Rightarrow> string \<Rightarrow> string \<Rightarrow> exn + filesystem" where
  "write_text fs p text =
     (case fs (dirname p) of
        None \<Rightarrow> Inl FileNotFoundError
      | Some (File c) \<Rightarrow> Inl NotADirectoryError
      | Some Dir \<Rightarrow>
          (if fs p = Some Dir then Inl IsADirectoryError else Inr (fs(p \<mapsto> File text))))"

subsection \<open>The SDK, an external collaborator\<close>

record workflow =
  wf_id :: string
  wf_name :: string
  wf_status :: string
  wf_duration_seconds :: string

text \<open>
  \<open>'s\<close> is the state of the client and of the remote service, \<open>'req\<close> the request object,
  \<open>'res\<close> the result object. A call that raises returns the message of its exception.
  \<open>client_init\<close> is \<open>PromethiumClient()\<close>: the script passes it no argument; the SDK may
  read the process environment by itself.
\<close>

record ('s, 'req, 'res) sdk =
  base64encode :: "string \<Rightarrow> string"
  create_request :: "json \<Rightarrow> string + 'req"
  client_init :: "(string \<Rightarrow> string option) \<Rightarrow> 's \<Rightarrow> string option \<times> 's"
  submit :: "'req \<Rightarrow> 's \<Rightarrow> (string + workflow) \<times> 's"
  wait :: "string \<Rightarrow> 's \<Rightarrow> string option \<times> 's"
  get :: "string \<Rightarrow> 's \<Rightarrow> (string + workflow) \<times> 's"
  results :: "string \<Rightarrow> 's \<Rightarrow> (string + 'res) \<times> 's"
  model_dump_json :: "'res \<Rightarrow> string"
  get_artifact :: "'res \<Rightarrow> string \<Rightarrow> string + string"

subsection \<open>Program state, trace and control\<close>

text \<open>A piece of a printed line: text, or a float formatted with \<open>:.2f\<close>.\<close>

datatype piece = Txt string | Fixed2 string

datatype ('req, 'res) event =
    EvMakedirs string
  | EvClientInit "string option"
  | EvRequest pyval json "string option"
  | EvSubmit 'req "string + workflow"
  | EvWait string "string option"
  | EvGet string "string + workflow"
  | EvResults string "string + 'res"
  | EvOpen string "exn option"
  | EvPrint "piece list"

record ('s, 'req, 'res) state =
  heap :: heap
  job_params :: pyval
  base_url :: string
  gpu_type :: string
  workflow_ids :: "string list"
  fs :: filesystem
  remote :: 's
  trace :: "('req, 'res) event list"

type_synonym ('a, 's, 'req, 'res) prog =
  "('s, 'req, 'res) state \<Rightarrow> (exn + 'a) \<times> ('s, 'req, 'res) state"

definition pbind ::
  "('a, 's, 'req, 'res) prog \<Rightarrow> ('a \<Rightarrow> ('b, 's, 'req, 'res) prog) \<Rightarrow> ('b, 's, 'req, 'res) prog" where
  "pbind m f st = (case m st of (Inl e, st') \<Rightarrow> (Inl e, st') | (Inr x, st') \<Rightarrow> f x st')"

definition log :: "('req, 'res) event \<Rightarrow> ('s, 'req, 'res) state \<Rightarrow> ('s, 'req, 'res) state" where
  "log e st = st\<lparr>trace := trace st @ [e]\<rparr>"

definition sdk_result :: "string + 'a \<Rightarrow> exn + 'a" where
  "sdk_result r = (case r of Inl msg \<Rightarrow> Inl (SdkError msg) | Inr x \<Rightarrow> Inr x)"

definition sdk_outcome :: "string option \<Rightarrow> exn + unit" where
  "sdk_outcome r = (case r of Some msg \<Rightarrow> Inl (SdkError msg) | None \<Rightarrow> Inr ())"

text \<open>A \<open>for\<close> loop: the first exception ends it.\<close>

fun for_each ::
  "('x \<Rightarrow> (unit, 's, 'req, 'res) prog) \<Rightarrow> 'x list \<Rightarrow> (unit, 's, 'req, 'res) prog" where
  "for_each body [] st = (Inr (), st)"
| "for_each body (x # xs) st =
     (case body x st of (Inl e, st') \<Rightarrow> (Inl e, st') | (Inr u, st') \<Rightarrow> for_each body xs st')"

subsection \<open>The script\<close>

definition foldername :: string where
  "foldername = ''output''"

definition getenv :: "(string \<Rightarrow> string option) \<Rightarrow> string \<Rightarrow> string \<Rightarrow> string" where
  "getenv env k d = (case env k of None \<Rightarrow> d | Some v \<Rightarrow> v)"

definition SMILES :: "string list" where
  "SMILES =
     [''CCOCC'',
      ''CC1(C2C1C(N(C2)C(=O)C(C(C)(C)C)NC(=O)C(F)(F)F)C(=O)NC(CC3CCNC3=O)C#N)C'']"

definition SMILES_Names :: "string list" where
  "SMILES_Names = [''Diethyl_Ether'', ''Nirmatrelvir'']"

text \<open>The literal bound to \<open>job_params\<close> (lines 51 to 119).\<close>

definition job_params_json :: json where
  "job_params_json = JDict
     [(''name'', JStr ''name_placeholder''),
      (''version'', JStr ''v1''),
      (''kind'', JStr ''ConformerSearch''),
      (''parameters'', JDict
         [(''molecule'', JDict []),
          (''params'', JDict
             [(''confgen_max_n_conformers'', JInt 50),
              (''confgen_rmsd_threshold'', JFloat ''0.3''),
              (''charge'', JInt 0),
              (''multiplicity'', JInt 1)]),
          (''filters'', JList
             [JDict
                [(''filtertype'', JStr ''ForceField''),
                 (''params'', JDict
                    [(''do_geometry_optimization'', JBool True),
                     (''forcefield_type'', JStr ''MMFF''),
                     (''max_n_conformers'', JInt 50),
                     (''energy_threshold'', JInt 15),
                     (''rmsd_threshold'', JFloat ''0.3''),
                     (''coulomb_distance_threshold'', JFloat ''0.005'')]),
                 (''key'', JStr ''FF'')],
              JDict
                [(''filtertype'', JStr ''ANI''),
                 (''params'', JDict
                    [(''max_n_conformers'', JInt 10),
                     (''energy_threshold'', JInt 10),
                     (''distance_threshold'', JFloat ''0.005''),
                     (''do_geometry_optimization'', JBool True)]),
                 (''key'', JStr ''ANI'')],
              JDict
                [(''filtertype'', JStr ''DFT''),
                 (''params'', JDict
                    [(''maxiter'', JInt 15),
                     (''energy_threshold'', JInt 5),
                     (''do_geometry_optimization'', JBool True),
                     (''distance_threshold'', JFloat ''0.005''),
                     (''g_thresh'', JFloat ''1e-4'')]),
                 (''system'', JDict
                    [(''params'', JDict
                        [(''basisname'', JStr ''def2-svp''),
                         (''jkfit_basisname'', JStr ''def2-universal-jkfit''),
                         (''methodname'', JStr ''b3lyp-d3''),
                         (''xc_grid_scheme'', JStr ''SG1''),
                         (''pcm_epsilon'', JFloat ''80.4''),
                         (''pcm_spherical_npoint'', JInt 110)])]),
                 (''hf'', JDict
                    [(''params'', JDict [(''g_convergence'', JFloat ''0.000001'')])]),
                 (''jk_builder'', JDict
                    [(''type'', JStr ''core_dfjk''),
                     (''params'', JDict [])]),
                 (''key'', JStr ''DFT Stage 1 (Coarse Filtering)'')]])]),
      (''resources'', JDict [(''gpu_type'', JStr ''a100'')])]"

text \<open>
  Lines 29 to 119: the three settings, the folder, and the template. \<open>os.makedirs\<close> is
  called only when nothing exists under the name \<open>output\<close>.
\<close>

definition module_init ::
  "(string \<Rightarrow> string option) \<Rightarrow> filesystem \<Rightarrow> 's \<Rightarrow> (exn + unit) \<times> ('s, 'req, 'res) state" where
  "module_init env fs0 r0 =
     (case display job_params_json [] of
        (h, jp) \<Rightarrow>
          (let st = \<lparr>heap = h, job_params = jp,
                     base_url = getenv env ''PM_API_BASE_URL'' ''https://api.promethium.qcware.com'',
                     gpu_type = getenv env ''PM_GPU_TYPE'' ''a100'',
                     workflow_ids = [], fs = fs0, remote = r0, trace = []\<rparr>
           in if \<not> path_exists fs0 foldername
              then (case makedirs fs0 foldername of
                      Inl e \<Rightarrow> (Inl e, st)
                    | Inr fs1 \<Rightarrow> (Inr (), log (EvMakedirs foldername) (st\<lparr>fs := fs1\<rparr>)))
              else (Inr (), st)))"

text \<open>Line 123: \<open>prom = PromethiumClient()\<close>.\<close>

definition new_client ::
  "('s, 'req, 'res) sdk \<Rightarrow> (string \<Rightarrow> string option) \<Rightarrow> (unit, 's, 'req, 'res) prog" where
  "new_client k env st =
     (case client_init k env (remote st) of
        (r, s') \<Rightarrow> (sdk_outcome r, log (EvClientInit r) (st\<lparr>remote := s'\<rparr>)))"

text \<open>
  Lines 127 to 132: the copy of the template and the two assignments. The right-hand side
  of the second assignment, a dict display, is evaluated before its target.
\<close>

definition build_payload ::
  "string \<Rightarrow> string \<Rightarrow> heap \<Rightarrow> pyval \<Rightarrow> exn + heap \<times> pyval" where
  "build_payload enc smile_name h jp =
     (case deepcopy h jp of
        None \<Rightarrow> Inl RecursionError
      | Some (h1, tmp_job_params) \<Rightarrow>
         (case setitem h1 tmp_job_params ''name''
                 (VStr (smile_name @ ''_api_conformer-search'')) of
            Inl e \<Rightarrow> Inl e
          | Inr h2 \<Rightarrow>
             (case display (JDict [(''base64data'', JStr enc), (''filetype'', JStr ''smi'')]) h2 of
                (h3, molecule) \<Rightarrow>
                  (case getitem h3 tmp_job_params ''parameters'' of
                     Inl e \<Rightarrow> Inl e
                   | Inr parameters \<Rightarrow>
                      (case setitem h3 parameters ''molecule'' molecule of
                         Inl e \<Rightarrow> Inl e
                       | Inr h4 \<Rightarrow> Inr (h4, tmp_job_params))))))"

definition do_build :: "('s, 'req, 'res) sdk \<Rightarrow> string \<Rightarrow> string \<Rightarrow> (pyval, 's, 'req, 'res) prog" where
  "do_build k smile smile_name st =
     (case build_payload (base64encode k smile) smile_name (heap st) (job_params st) of
        Inl e \<Rightarrow> (Inl e, st)
      | Inr (h, tmp_job_params) \<Rightarrow> (Inr tmp_job_params, st\<lparr>heap := h\<rparr>))"

text \<open>Line 133: \<open>payload = CreateConformerSearchWorkflowRequest(**tmp_job_params)\<close>.\<close>

definition do_request :: "('s, 'req, 'res) sdk \<Rightarrow> pyval \<Rightarrow> ('req, 's, 'req, 'res) prog" where
  "do_request k tmp_job_params st =
     (case snapshot (heap st) tmp_job_params of
        None \<Rightarrow> (Inl RecursionError, st)
      | Some j \<Rightarrow>
          (case create_request k j of
             Inl msg \<Rightarrow> (Inl (SdkError msg), log (EvRequest tmp_job_params j (Some msg)) st)
           | Inr payload \<Rightarrow> (Inr payload, log (EvRequest tmp_job_params j None) st)))"

text \<open>Line 134: \<open>workflow = prom.workflows.submit(payload)\<close>.\<close>

definition do_submit :: "('s, 'req, 'res) sdk \<Rightarrow> 'req \<Rightarrow> (workflow, 's, 'req, 'res) prog" where
  "do_submit k payload st =
     (case submit k payload (remote st) of
        (r, s') \<Rightarrow> (sdk_result r, log (EvSubmit payload r) (st\<lparr>remote := s'\<rparr>)))"

text \<open>Lines 135 and 136: the identifier is stored, then a line is printed.\<close>

definition do_record :: "workflow \<Rightarrow> (unit, 's, 'req, 'res) prog" where
  "do_record workflow st =
     (Inr (),
      log (EvPrint [Txt ''Workflow '', Txt (wf_name workflow),
                    Txt '' submitted with id: '', Txt (wf_id workflow)])
        (st\<lparr>workflow_ids := workflow_ids st @ [wf_id workflow]\<rparr>))"

definition submit_body ::
  "('s, 'req, 'res) sdk \<Rightarrow> string \<times> string \<Rightarrow> (unit, 's, 'req, 'res) prog" where
  "submit_body k pair =
     (case pair of
        (smile, smile_name) \<Rightarrow>
          pbind (do_build k smile smile_name) (\<lambda>tmp_job_params.
          pbind (do_request k tmp_job_params) (\<lambda>payload.
          pbind (do_submit k payload) (\<lambda>workflow.
          do_record workflow))))"

text \<open>Lines 126 to 136.\<close>

definition submit_loop ::
  "('s, 'req, 'res) sdk \<Rightarrow> string list \<Rightarrow> string list \<Rightarrow> (unit, 's, 'req, 'res) prog" where
  "submit_loop k smiles names = for_each (submit_body k) (zip smiles names)"

text \<open>Lines 150 to 166, one step each.\<close>

definition do_wait :: "('s, 'req, 'res) sdk \<Rightarrow> string \<Rightarrow> (unit, 's, 'req, 'res) prog" where
  "do_wait k workflow_id st =
     (case wait k workflow_id (remote st) of
        (r, s') \<Rightarrow> (sdk_outcome r, log (EvWait workflow_id r) (st\<lparr>remote := s'\<rparr>)))"

definition do_get :: "('s, 'req, 'res) sdk \<Rightarrow> string \<Rightarrow> (workflow, 's, 'req, 'res) prog" where
  "do_get k workflow_id st =
     (case get k workflow_id (remote st) of
        (r, s') \<Rightarrow> (sdk_result r, log (EvGet workflow_id r) (st\<lparr>remote := s'\<rparr>)))"

definition do_report :: "workflow \<Rightarrow> (unit, 's, 'req, 'res) prog" where
  "do_report workflow st =
     (Inr (),
      log (EvPrint [Txt ''Workflow completed in '', Fixed2 (wf_duration_seconds workflow),
                    Txt ''s''])
        (log (EvPrint [Txt ''Workflow '', Txt (wf_name workflow),
                       Txt '' completed with status: '', Txt (wf_status workflow)]) st))"

definition do_results :: "('s, 'req, 'res) sdk \<Rightarrow> string \<Rightarrow> ('res, 's, 'req, 'res) prog" where
  "do_results k workflow_id st =
     (case results k workflow_id (remote st) of
        (r, s') \<Rightarrow> (sdk_result r, log (EvResults workflow_id r) (st\<lparr>remote := s'\<rparr>)))"

definition results_path :: "string \<Rightarrow> string" where
  "results_path name = foldername @ ''/'' @ name @ ''_results.json''"

definition do_write :: "string \<Rightarrow> string \<Rightarrow> (unit, 's, 'req, 'res) prog" where
  "do_write path text st =
     (case write_text (fs st) path text of
        Inl e \<Rightarrow> (Inl e, log (EvOpen path (Some e)) st)
      | Inr fs1 \<Rightarrow> (Inr (), log (EvOpen path None) (st\<lparr>fs := fs1\<rparr>)))"

definition conformers_header :: string where
  "conformers_header =
     ''Conformers:'' @ [CHR 0x0A] @ ''===================='' @ [CHR 0x0A]"

definition do_conformers :: "('s, 'req, 'res) sdk \<Rightarrow> 'res \<Rightarrow> (unit, 's, 'req, 'res) prog" where
  "do_conformers k cs_results st =
     (case get_artifact k cs_results ''conformers'' of
        Inl msg \<Rightarrow> (Inl (SdkError msg), st)
      | Inr conformers \<Rightarrow>
          (Inr (), log (EvPrint [Txt conformers]) (log (EvPrint [Txt conformers_header]) st)))"

definition collect_body :: "('s, 'req, 'res) sdk \<Rightarrow> string \<Rightarrow> (unit, 's, 'req, 'res) prog" where
  "collect_body k workflow_id =
     pbind (do_wait k workflow_id) (\<lambda>u.
     pbind (do_get k workflow_id) (\<lambda>workflow.
     pbind (do_report workflow) (\<lambda>u.
     pbind (do_results k workflow_id) (\<lambda>cs_results.
     pbind (do_write (results_path (wf_name workflow)) (model_dump_json k cs_results)) (\<lambda>u.
     do_conformers k cs_results)))))"

text \<open>Lines 148 to 166.\<close>

definition collect_loop :: "('s, 'req, 'res) sdk \<Rightarrow> (unit, 's, 'req, 'res) prog" where
  "collect_loop k st = for_each (collect_body k) (workflow_ids st) st"

text \<open>Lines 29 to 136: everything up to the end of the submission loop.\<close>

definition submit_phase ::
  "('s, 'req, 'res) sdk \<Rightarrow> (string \<Rightarrow> string option) \<Rightarrow> filesystem \<Rightarrow> 's \<Rightarrow>
     string list \<Rightarrow> string list \<Rightarrow> (exn + unit) \<times> ('s, 'req, 'res) state" where
  "submit_phase k env fs0 r0 smiles names =
     (case module_init env fs0 r0 of
        (Inl e, st) \<Rightarrow> (Inl e, st)
      | (Inr u, st) \<Rightarrow> pbind (new_client k env) (\<lambda>u. submit_loop k smiles names) st)"

text \<open>The whole script, for the two input lists.\<close>

definition run ::
  "('s, 'req, 'res) sdk \<Rightarrow> (string \<Rightarrow> string option) \<Rightarrow> filesystem \<Rightarrow> 's \<Rightarrow>
     string list \<Rightarrow> string list \<Rightarrow> (exn + unit) \<times> ('s, 'req, 'res) state" where
  "run k env fs0 r0 smiles names =
     (case submit_phase k env fs0 r0 smiles names of
        (Inl e, st) \<Rightarrow> (Inl e, st)
      | (Inr u, st) \<Rightarrow> collect_loop k st)"

subsection \<open>Reading a trace\<close>

definition request_of :: "('req, 'res) event \<Rightarrow> (pyval \<times> json) list" where
  "request_of e = (case e of EvRequest p j r \<Rightarrow> [(p, j)] | _ \<Rightarrow> [])"

definition submit_of :: "('req, 'res) event \<Rightarrow> ('req \<times> (string + workflow)) list" where
  "submit_of e = (case e of EvSubmit q r \<Rightarrow> [(q, r)] | _ \<Rightarrow> [])"

definition get_of :: "('req, 'res) event \<Rightarrow> (string \<times> (string + workflow)) list" where
  "get_of e = (case e of EvGet i r \<Rightarrow> [(i, r)] | _ \<Rightarrow> [])"

definition open_of :: "('req, 'res) event \<Rightarrow> (string \<times> exn option) list" where
  "open_of e = (case e of EvOpen p r \<Rightarrow> [(p, r)] | _ \<Rightarrow> [])"

definition makedirs_of :: "('req, 'res) event \<Rightarrow> string list" where
  "makedirs_of e = (case e of EvMakedirs p \<Rightarrow> [p] | _ \<Rightarrow> [])"

text \<open>The calls of the second loop, by name and identifier.\<close>

definition call_of :: "('req, 'res) event \<Rightarrow> (string \<times> string) list" where
  "call_of e =
     (case e of
        EvWait i r \<Rightarrow> [(''wait'', i)]
      | EvGet i r \<Rightarrow> [(''get'', i)]
      | EvResults i r \<Rightarrow> [(''results'', i)]
      | _ \<Rightarrow> [])"

definition requests :: "('req, 'res) event list \<Rightarrow> (pyval \<times> json) list" where
  "requests tr = concat (map request_of tr)"

definition submits :: "('req, 'res) event list \<Rightarrow> ('req \<times> (string + workflow)) list" where
  "submits tr = concat (map submit_of tr)"

definition gets :: "('req, 'res) event list \<Rightarrow> (string \<times> (string + workflow)) list" where
  "gets tr = concat (map get_of tr)"

definition opens :: "('req, 'res) event list \<Rightarrow> (string \<times> exn option) list" where
  "opens tr = concat (map open_of tr)"

definition calls :: "('req, 'res) event list \<Rightarrow> (string \<times> string) list" where
  "calls tr = concat (map call_of tr)"

text \<open>Events of the first loop (lines 126 to 136) and of the second loop.\<close>

definition first_loop_event :: "('req, 'res) event \<Rightarrow> bool" where
  "first_loop_event e =
     (case e of
        EvRequest p j r \<Rightarrow> True
      | EvSubmit q r \<Rightarrow> True
      | EvPrint ps \<Rightarrow> True
      | _ \<Rightarrow> False)"

definition second_loop_event :: "('req, 'res) event \<Rightarrow> bool" where
  "second_loop_event e =
     (case e of
        EvWait i r \<Rightarrow> True
      | EvGet i r \<Rightarrow> True
      | EvResults i r \<Rightarrow> True
      | EvOpen p r \<Rightarrow> True
      | EvPrint ps \<Rightarrow> True
      | _ \<Rightarrow> False)"

subsection \<open>What a payload should be\<close>

definition jset :: "json \<Rightarrow> string \<Rightarrow> json \<Rightarrow> json" where
  "jset j k v = (case j of JDict kvs \<Rightarrow> JDict (dict_set kvs k v) | _ \<Rightarrow> j)"

definition molecule_json :: "string \<Rightarrow> json" where
  "molecule_json enc = JDict [(''base64data'', JStr enc), (''filetype'', JStr ''smi'')]"

text \<open>
  The template with two fields replaced: \<open>name\<close>, and \<open>molecule\<close> inside \<open>parameters\<close>.
\<close>

definition payload_json :: "string \<Rightarrow> string \<Rightarrow> json" where
  "payload_json enc smile_name =
     (case jget job_params_json ''parameters'' of
        None \<Rightarrow> job_params_json
      | Some ps \<Rightarrow>
          jset (jset job_params_json ''name'' (JStr (smile_name @ ''_api_conformer-search'')))
            ''parameters'' (jset ps ''molecule'' (molecule_json enc)))"

text \<open>
  The deep value of \<open>v\<close> is \<open>j\<close> whatever the store holds outside the addresses from \<open>lo\<close>
  up to \<open>hi\<close>: no assignment to an object outside that range can change it.
\<close>

definition owns :: "heap \<Rightarrow> pyval \<Rightarrow> addr \<Rightarrow> addr \<Rightarrow> json \<Rightarrow> bool" where
  "owns h v lo hi j \<longleftrightarrow>
     (\<forall>g. length g = length h \<and> (\<forall>a. lo \<le> a \<and> a < hi \<longrightarrow> g ! a = h ! a)
        \<longrightarrow> snapshot g v = Some j)"

text \<open>The objects of the template, as the display of line 51 allocates them.\<close>

definition template_heap :: heap where
  "template_heap = fst (display job_params_json [])"

definition template_at :: "heap \<Rightarrow> bool" where
  "template_at h \<longleftrightarrow> 18 \<le> length h \<and> take 18 h = template_heap"

text \<open>
  The eighteen objects \<open>copy.deepcopy(job_params)\<close> adds to a store of \<open>b\<close> objects, in
  the order it creates them: a dict or list first, then what it holds.
\<close>

definition template_copy :: "addr \<Rightarrow> heap" where
  "template_copy b =
     [ODict [(''name'', VStr ''name_placeholder''),
             (''version'', VStr ''v1''), (''kind'', VStr ''ConformerSearch''),
             (''parameters'', VRef (b + 1)), (''resources'', VRef (b + 17))],
      ODict [(''molecule'', VRef (b + 2)), (''params'', VRef (b + 3)),
             (''filters'', VRef (b + 4))],
      ODict [],
      ODict [(''confgen_max_n_conformers'', VInt 50),
             (''confgen_rmsd_threshold'', VFloat ''0.3''), (''charge'', VInt 0),
             (''multiplicity'', VInt 1)],
      OList [VRef (b + 5), VRef (b + 7), VRef (b + 9)],
      ODict [(''filtertype'', VStr ''ForceField''), (''params'', VRef (b + 6)),
             (''key'', VStr ''FF'')],
      ODict [(''do_geometry_optimization'', VBool True),
             (''forcefield_type'', VStr ''MMFF''),
             (''max_n_conformers'', VInt 50), (''energy_threshold'', VInt 15),
             (''rmsd_threshold'', VFloat ''0.3''),
             (''coulomb_distance_threshold'', VFloat ''0.005'')],
      ODict [(''filtertype'', VStr ''ANI''), (''params'', VRef (b + 8)),
             (''key'', VStr ''ANI'')],
      ODict [(''max_n_conformers'', VInt 10), (''energy_threshold'', VInt 10),
             (''distance_threshold'', VFloat ''0.005''),
             (''do_geometry_optimization'', VBool True)],
      ODict [(''filtertype'', VStr ''DFT''), (''params'', VRef (b + 10)),
             (''system'', VRef (b + 11)), (''hf'', VRef (b + 13)),
             (''jk_builder'', VRef (b + 15)),
             (''key'', VStr ''DFT Stage 1 (Coarse Filtering)'')],
      ODict [(''maxiter'', VInt 15), (''energy_threshold'', VInt 5),
             (''do_geometry_optimization'', VBool True),
             (''distance_threshold'', VFloat ''0.005''),
             (''g_thresh'', VFloat ''1e-4'')],
      ODict [(''params'', VRef (b + 12))],
      ODict [(''basisname'', VStr ''def2-svp''),
             (''jkfit_basisname'', VStr ''def2-universal-jkfit''),
             (''methodname'', VStr ''b3lyp-d3''),
             (''xc_grid_scheme'', VStr ''SG1''),
             (''pcm_epsilon'', VFloat ''80.4''),
             (''pcm_spherical_npoint'', VInt 110)],
      ODict [(''params'', VRef (b + 14))],
      ODict [(''g_convergence'', VFloat ''0.000001'')],
      ODict [(''type'', VStr ''core_dfjk''), (''params'', VRef (b + 16))],
      ODict [],
      ODict [(''gpu_type'', VStr ''a100'')]]"

text \<open>
  The nineteen objects one round of lines 127 to 132 adds: the copy, with the two
  assignments made to its first two dicts, and the new \<open>molecule\<close> dict.
\<close>

definition payload_block :: "addr \<Rightarrow> string \<Rightarrow> string \<Rightarrow> heap" where
  "payload_block b enc smile_name =
     (template_copy b)
       [0 := ODict [(''name'', VStr (smile_name @ ''_api_conformer-search'')),
                    (''version'', VStr ''v1''), (''kind'', VStr ''ConformerSearch''),
                    (''parameters'', VRef (b + 1)), (''resources'', VRef (b + 17))],
        1 := ODict [(''molecule'', VRef (b + 18)), (''params'', VRef (b + 3)),
                    (''filters'', VRef (b + 4))]]
     @ [ODict [(''base64data'', VStr enc), (''filetype'', VStr ''smi'')]]"

text \<open>The store after the rounds for a list of pairs.\<close>

fun grow :: "(string \<Rightarrow> string) \<Rightarrow> (string \<times> string) list \<Rightarrow> heap \<Rightarrow> heap" where
  "grow enc [] h = h"
| "grow enc ((smile, smile_name) # ps) h =
     grow enc ps (h @ payload_block (length h) (enc smile) smile_name)"

text \<open>The requests of the rounds for a list of pairs, the first dict built at address \<open>b\<close>.\<close>

fun reqs_at :: "(string \<Rightarrow> string) \<Rightarrow> addr \<Rightarrow> (string \<times> string) list \<Rightarrow> (pyval \<times> json) list" where
  "reqs_at enc b [] = []"
| "reqs_at enc b ((smile, smile_name) # ps) =
     (VRef b, payload_json (enc smile) smile_name) # reqs_at enc (b + 19) ps"

subsection \<open>The submission loop, seen from the SDK\<close>

text \<open>
  What the loop asks of the SDK and what it is answered, without the store: the outcome,
  the number of rounds begun, the submissions with their answers, and the state of the
  remote service. The loop is shown to behave so (\<open>submit_loop_spec\<close> below).
\<close>

fun submit_spec ::
  "('s, 'req, 'res) sdk \<Rightarrow> (string \<times> string) list \<Rightarrow> 's \<Rightarrow>
     (exn + unit) \<times> nat \<times> ('req \<times> (string + workflow)) list \<times> 's" where
  "submit_spec k [] s = (Inr (), 0, [], s)"
| "submit_spec k ((smile, smile_name) # ps) s =
     (case create_request k (payload_json (base64encode k smile) smile_name) of
        Inl msg \<Rightarrow> (Inl (SdkError msg), 1, [], s)
      | Inr q \<Rightarrow>
          (case submit k q s of
             (Inl msg, s') \<Rightarrow> (Inl (SdkError msg), 1, [(q, Inl msg)], s')
           | (Inr w, s') \<Rightarrow>
               (case submit_spec k ps s' of
                  (r, n, evs, s'') \<Rightarrow> (r, Suc n, (q, Inr w) # evs, s''))))"

definition id_of :: "'req \<times> (string + workflow) \<Rightarrow> string list" where
  "id_of ev = (case snd ev of Inl msg \<Rightarrow> [] | Inr w \<Rightarrow> [wf_id w])"

definition ids_of :: "('req \<times> (string + workflow)) list \<Rightarrow> string list" where
  "ids_of evs = concat (map id_of evs)"

subsection \<open>The contract of wait and get\<close>

definition terminal :: "string \<Rightarrow> bool" where
  "terminal status \<longleftrightarrow> status = ''completed'' \<or> status = ''failed''"

text \<open>
  \<open>finished s i\<close>: in the state \<open>s\<close> of the remote service the workflow \<open>i\<close> has reached a
  terminal state. \<open>wait\<close> returns only then, and \<open>get\<close> on such a workflow reports a
  terminal status.
\<close>

definition wait_contract :: "('s, 'req, 'res) sdk \<Rightarrow> ('s \<Rightarrow> string \<Rightarrow> bool) \<Rightarrow> bool" where
  "wait_contract k finished \<longleftrightarrow>
     (\<forall>i s s'. wait k i s = (None, s') \<longrightarrow> finished s' i) \<and>
     (\<forall>i s w s'. get k i s = (Inr w, s') \<and> finished s i \<longrightarrow> terminal (wf_status w))"

subsection \<open>A test double for the SDK\<close>

text \<open>
  Standard Base64 of the bytes of a string, and a service that keeps its workflows in a
  list: a request object is the name of the request, the requests whose name is listed
  are rejected, \<open>wait\<close> completes a workflow, and the result object is a text that is
  its own serialisation.
\<close>

definition b64_char :: "nat \<Rightarrow> char" where
  "b64_char n = ''ABCDEFGHIJKLMNOPQRSTUVWXYZabcdefghijklmnopqrstuvwxyz0123456789+/'' ! n"

fun b64_bytes :: "nat list \<Rightarrow> string" where
  "b64_bytes [] = []"
| "b64_bytes [a] = [b64_char (a div 4), b64_char ((a mod 4) * 16), CHR ''='', CHR ''='']"
| "b64_bytes [a, b] =
     [b64_char (a div 4), b64_char ((a mod 4) * 16 + b div 16), b64_char ((b mod 16) * 4),
      CHR ''='']"
| "b64_bytes (a # b # c # r) =
     [b64_char (a div 4), b64_char ((a mod 4) * 16 + b div 16),
      b64_char ((b mod 16) * 4 + c div 64), b64_char (c mod 64)] @ b64_bytes r"

definition b64encode :: "string \<Rightarrow> string" where
  "b64encode s = b64_bytes (map of_char s)"

definition mock_request :: "json \<Rightarrow> string + string" where
  "mock_request j = (case jget j ''name'' of Some (JStr n) \<Rightarrow> Inr n | _ \<Rightarrow> Inl ''no name'')"

definition mock_submit ::
  "string list \<Rightarrow> string \<Rightarrow> workflow list \<Rightarrow> (string + workflow) \<times> workflow list" where
  "mock_submit rejected n s =
     (if n \<in> set rejected then (Inl ''rejected'', s)
      else (let w = \<lparr>wf_id = ''id-'' @ n, wf_name = n, wf_status = ''running'',
                      wf_duration_seconds = ''0.0''\<rparr>
            in (Inr w, s @ [w])))"

definition mock_wait :: "string \<Rightarrow> workflow list \<Rightarrow> string option \<times> workflow list" where
  "mock_wait i s =
     (None,
      map (\<lambda>w. if wf_id w = i
                then w\<lparr>wf_status := ''completed'', wf_duration_seconds := ''1.5''\<rparr>
                else w) s)"

definition mock_get :: "string \<Rightarrow> workflow list \<Rightarrow> (string + workflow) \<times> workflow list" where
  "mock_get i s =
     (case find (\<lambda>w. wf_id w = i) s of
        Some w \<Rightarrow> (Inr w, s)
      | None \<Rightarrow> (Inl ''unknown workflow'', s))"

definition mock_sdk :: "string list \<Rightarrow> (workflow list, string, string) sdk" where
  "mock_sdk rejected =
     \<lparr>base64encode = b64encode,
      create_request = mock_request,
      client_init = (\<lambda>env s. (None, s)),
      submit = mock_submit rejected,
      wait = mock_wait,
      get = mock_get,
      results = (\<lambda>i s. (Inr (''results of '' @ i), s)),
      model_dump_json = (\<lambda>r. r),
      get_artifact = (\<lambda>r a. Inr (a @ '' in '' @ r))\<rparr>"

definition mock_finished :: "workflow list \<Rightarrow> string \<Rightarrow> bool" where
  "mock_finished s i = list_all (\<lambda>w. wf_id w \<noteq> i \<or> terminal (wf_status w)) s"

definition no_files :: filesystem where
  "no_files = (\<lambda>p. None)"

definition env_v100 :: "string \<Rightarrow> string option" where
  "env_v100 =
     [''PM_GPU_TYPE'' \<mapsto> ''v100'', ''PM_API_BASE_URL'' \<mapsto> ''https://staging.example'']"

subsection \<open>Vocabulary for the statements\<close>

text \<open>A field at the end of a path of keys, and the keys of a dict.\<close>

fun jpath :: "json \<Rightarrow> string list \<Rightarrow> json option" where
  "jpath j [] = Some j"
| "jpath j (k # ks) = (case jget j k of None \<Rightarrow> None | Some v \<Rightarrow> jpath v ks)"

definition jkeys :: "json \<Rightarrow> string list" where
  "jkeys j = (case j of JDict kvs \<Rightarrow> map fst kvs | _ \<Rightarrow> [])"

text \<open>The trace of \<open>st'\<close> is the trace of \<open>st\<close> followed by events that all satisfy \<open>P\<close>.\<close>

definition extends ::
  "(('req, 'res) event \<Rightarrow> bool) \<Rightarrow> ('s, 'req, 'res) state \<Rightarrow> ('s, 'req, 'res) state \<Rightarrow> bool" where
  "extends P st st' \<longleftrightarrow> (\<exists>es. trace st' = trace st @ es \<and> list_all P es)"

text \<open>The three calls the second loop makes for one identifier, in program order.\<close>

definition wait_get_results :: "string \<Rightarrow> (string \<times> string) list" where
  "wait_get_results i = [(''wait'', i), (''get'', i), (''results'', i)]"

definition result_of :: "('req, 'res) event \<Rightarrow> (string \<times> (string + 'res)) list" where
  "result_of e = (case e of EvResults i r \<Rightarrow> [(i, r)] | _ \<Rightarrow> [])"

definition fetched :: "('req, 'res) event list \<Rightarrow> (string \<times> (string + 'res)) list" where
  "fetched tr = concat (map result_of tr)"

text \<open>
  The calls among the new events of a step are a beginning of \<open>cs\<close>, and all of \<open>cs\<close>
  when the step ends without an exception.
\<close>

definition emits ::
  "(string \<times> string) list \<Rightarrow> ('s, 'req, 'res) state \<Rightarrow> exn + 'a \<Rightarrow> ('s, 'req, 'res) state \<Rightarrow> bool" where
  "emits cs st r st' \<longleftrightarrow>
     (\<exists>es n. trace st' = trace st @ es \<and> calls es = take n cs \<and>
        (case r of Inl e \<Rightarrow> True | Inr x \<Rightarrow> calls es = cs))"

text \<open>A \<open>get\<close> that returned reports a terminal status.\<close>

definition get_terminal :: "('req, 'res) event \<Rightarrow> bool" where
  "get_terminal e =
     (case e of
        EvGet i r \<Rightarrow> (case r of Inl msg \<Rightarrow> True | Inr w \<Rightarrow> terminal (wf_status w))
      | _ \<Rightarrow> True)"

text \<open>An \<open>open\<close> of a file directly under \<open>output\<close> did not fail for want of that directory.\<close>

definition open_ok :: "('req, 'res) event \<Rightarrow> bool" where
  "open_ok e =
     (case e of
        EvOpen p r \<Rightarrow>
          dirname p \<noteq> foldername \<or> (r \<noteq> Some FileNotFoundError \<and> r \<noteq> Some NotADirectoryError)
      | _ \<Rightarrow> True)"

definition made :: "('req, 'res) event list \<Rightarrow> string list" where
  "made tr = concat (map makedirs_of tr)"

text \<open>A state at the start of the second loop, with one workflow of the test double.\<close>

definition demo_state :: "(workflow list, string, string) state" where
  "demo_state =
     \<lparr>heap = template_heap, job_params = VRef 17, base_url = [], gpu_type = [],
      workflow_ids = [''id-Diethyl_Ether_api_conformer-search''],
      fs = no_files(foldername \<mapsto> Dir),
      remote = [\<lparr>wf_id = ''id-Diethyl_Ether_api_conformer-search'',
                 wf_name = ''Diethyl_Ether_api_conformer-search'',
                 wf_status = ''running'', wf_duration_seconds = ''0.0''\<rparr>],
      trace = []\<rparr>"

section \<open>Evaluating store operations\<close>

lemma lookup_append:
  "lookup (h @ blk) a = (if a < length h then Some (h ! a) else lookup blk (a - length h))"
  by (auto simp add: lookup_def nth_append)

lemma lookup_Nil: "lookup [] n = None"
  by (simp add: lookup_def)

lemma lookup_Cons_0: "lookup (x # xs) 0 = Some x"
  by (simp add: lookup_def)

lemma lookup_Cons_Suc: "lookup (x # xs) (Suc n) = lookup xs n"
  by (simp add: lookup_def)

lemma lookup_Cons_numeral: "lookup (x # xs) (numeral n) = lookup xs (pred_numeral n)"
  by (simp add: lookup_def numeral_eq_Suc)

lemma dict_store_append:
  "\<not> y < length h \<Longrightarrow> dict_store (h @ blk) y k v = h @ dict_store blk (y - length h) k v"
  by (auto simp add: dict_store_def lookup_append list_update_append
      split: option.splits pyobj.splits)

lemma dict_store_Cons_0: "dict_store (ODict kvs # xs) 0 k v = ODict (dict_set kvs k v) # xs"
  by (simp add: dict_store_def lookup_def)

lemma dict_store_Cons_Suc: "dict_store (x # xs) (Suc n) k v = x # dict_store xs n k v"
  by (auto simp add: dict_store_def lookup_def split: option.splits pyobj.splits)

lemma dict_store_Cons_numeral:
  "dict_store (x # xs) (numeral n) k v = x # dict_store xs (pred_numeral n) k v"
  by (simp add: numeral_eq_Suc dict_store_Cons_Suc)

lemma list_append_append:
  "\<not> y < length h \<Longrightarrow> list_append (h @ blk) y v = h @ list_append blk (y - length h) v"
  by (auto simp add: list_append_def lookup_append list_update_append
      split: option.splits pyobj.splits)

lemma list_append_Cons_0: "list_append (OList vs # xs) 0 v = OList (vs @ [v]) # xs"
  by (simp add: list_append_def lookup_def)

lemma list_append_Cons_Suc: "list_append (x # xs) (Suc n) v = x # list_append xs n v"
  by (auto simp add: list_append_def lookup_def split: option.splits pyobj.splits)

lemma list_append_Cons_numeral:
  "list_append (x # xs) (numeral n) v = x # list_append xs (pred_numeral n) v"
  by (simp add: numeral_eq_Suc list_append_Cons_Suc)

lemmas heap_eval =
  lookup_append lookup_Nil lookup_Cons_0 lookup_Cons_Suc lookup_Cons_numeral
  dict_store_append dict_store_Cons_0 dict_store_Cons_Suc dict_store_Cons_numeral
  list_append_append list_append_Cons_0 list_append_Cons_Suc list_append_Cons_numeral

lemma deepcopy_fuel_numeral:
  "deepcopy_fuel (numeral n) h m v =
     (case v of
        VRef a \<Rightarrow>
          (case map_of m a of
             Some y \<Rightarrow> Some (h, m, VRef y)
           | None \<Rightarrow> deepcopy_obj (deepcopy_fuel (pred_numeral n)) h m a)
      | _ \<Rightarrow> Some (h, m, v))"
  by (simp add: numeral_eq_Suc)

lemma reify_numeral:
  "reify (numeral n) h v =
     (case v of VRef a \<Rightarrow> reify_obj (reify (pred_numeral n) h) h a | _ \<Rightarrow> reify_atom v)"
  by (simp add: numeral_eq_Suc)

section \<open>More fuel changes nothing\<close>

lemma deepcopy_dict_mono:
  assumes "\<And>h m v r. cp h m v = Some r \<Longrightarrow> cp' h m v = Some r"
  shows "deepcopy_dict cp h m y kvs = Some r \<Longrightarrow> deepcopy_dict cp' h m y kvs = Some r"
proof (induction kvs arbitrary: h m)
  case Nil
  then show ?case by simp
next
  case (Cons kv kvs)
  obtain k v where kv: "kv = (k, v)" by (cases kv)
  from Cons.prems obtain h1 m1 v' where
    c: "cp h m v = Some (h1, m1, v')" and
    d: "deepcopy_dict cp (dict_store h1 y k v') m1 y kvs = Some r"
    by (auto simp add: kv split: option.splits)
  from assms [OF c] Cons.IH [OF d] show ?case
    by (simp add: kv)
qed

lemma deepcopy_list_mono:
  assumes "\<And>h m v r. cp h m v = Some r \<Longrightarrow> cp' h m v = Some r"
  shows "deepcopy_list cp h m y vs = Some r \<Longrightarrow> deepcopy_list cp' h m y vs = Some r"
proof (induction vs arbitrary: h m)
  case Nil
  then show ?case by simp
next
  case (Cons v vs)
  from Cons.prems obtain h1 m1 v' where
    c: "cp h m v = Some (h1, m1, v')" and
    d: "deepcopy_list cp (list_append h1 y v') m1 y vs = Some r"
    by (auto split: option.splits)
  from assms [OF c] Cons.IH [OF d] show ?case
    by simp
qed

lemma deepcopy_obj_mono:
  assumes "\<And>h m v r. cp h m v = Some r \<Longrightarrow> cp' h m v = Some r"
    and "deepcopy_obj cp h m a = Some r"
  shows "deepcopy_obj cp' h m a = Some r"
proof (cases "lookup h a")
  case None
  with assms(2) show ?thesis by (simp add: deepcopy_obj_def)
next
  case (Some ob)
  show ?thesis
  proof (cases ob)
    case (ODict kvs)
    with Some assms(2) obtain h' m' where
      d: "deepcopy_dict cp (h @ [ODict []]) ((a, length h) # m) (length h) kvs = Some (h', m')"
      and r: "r = (h', m', VRef (length h))"
      by (auto simp add: deepcopy_obj_def split: option.splits)
    from deepcopy_dict_mono [of cp cp', OF assms(1) d] Some ODict r show ?thesis
      by (simp add: deepcopy_obj_def)
  next
    case (OList vs)
    with Some assms(2) obtain h' m' where
      d: "deepcopy_list cp (h @ [OList []]) ((a, length h) # m) (length h) vs = Some (h', m')"
      and r: "r = (h', m', VRef (length h))"
      by (auto simp add: deepcopy_obj_def split: option.splits)
    from deepcopy_list_mono [of cp cp', OF assms(1) d] Some OList r show ?thesis
      by (simp add: deepcopy_obj_def)
  qed
qed

lemma deepcopy_fuel_Suc:
  "deepcopy_fuel n h m v = Some r \<Longrightarrow> deepcopy_fuel (Suc n) h m v = Some r"
proof (induction n arbitrary: h m v r)
  case 0
  then show ?case
    by (cases v) (auto split: option.splits)
next
  case (Suc n)
  show ?case
  proof (cases v)
    case (VRef a)
    show ?thesis
    proof (cases "map_of m a")
      case None
      with Suc.prems VRef have o: "deepcopy_obj (deepcopy_fuel n) h m a = Some r"
        by simp
      have "deepcopy_obj (deepcopy_fuel (Suc n)) h m a = Some r"
        by (rule deepcopy_obj_mono [OF _ o]) (rule Suc.IH)
      with None VRef show ?thesis by simp
    next
      case (Some y)
      with Suc.prems VRef show ?thesis by simp
    qed
  qed (use Suc.prems in auto)
qed

lemma deepcopy_fuel_add:
  "deepcopy_fuel n h m v = Some r \<Longrightarrow> deepcopy_fuel (n + d) h m v = Some r"
proof (induction d)
  case 0
  then show ?case by simp
next
  case (Suc d)
  then have "deepcopy_fuel (n + d) h m v = Some r" by simp
  then have "deepcopy_fuel (Suc (n + d)) h m v = Some r" by (rule deepcopy_fuel_Suc)
  then show ?case by (simp only: add_Suc_right)
qed

lemma deepcopy_fuel_mono:
  "deepcopy_fuel n h m v = Some r \<Longrightarrow> n \<le> n' \<Longrightarrow> deepcopy_fuel n' h m v = Some r"
  using deepcopy_fuel_add [of n h m v r "n' - n"] by simp

lemma reify_items_mono:
  assumes "\<And>v j. rf v = Some j \<Longrightarrow> rf' v = Some j"
  shows "reify_items rf kvs = Some js \<Longrightarrow> reify_items rf' kvs = Some js"
proof (induction kvs arbitrary: js)
  case Nil
  then show ?case by simp
next
  case (Cons kv kvs)
  obtain k v where kv: "kv = (k, v)" by (cases kv)
  from Cons.prems obtain j js' where
    c: "rf v = Some j" and d: "reify_items rf kvs = Some js'" and e: "js = (k, j) # js'"
    by (auto simp add: kv split: option.splits)
  from assms [OF c] Cons.IH [OF d] e show ?case
    by (simp add: kv)
qed

lemma reify_elems_mono:
  assumes "\<And>v j. rf v = Some j \<Longrightarrow> rf' v = Some j"
  shows "reify_elems rf vs = Some js \<Longrightarrow> reify_elems rf' vs = Some js"
proof (induction vs arbitrary: js)
  case Nil
  then show ?case by simp
next
  case (Cons v vs)
  from Cons.prems obtain j js' where
    c: "rf v = Some j" and d: "reify_elems rf vs = Some js'" and e: "js = j # js'"
    by (auto split: option.splits)
  from assms [OF c] Cons.IH [OF d] e show ?case
    by simp
qed

lemma reify_obj_mono:
  assumes "\<And>v j. rf v = Some j \<Longrightarrow> rf' v = Some j"
    and "reify_obj rf h a = Some j"
  shows "reify_obj rf' h a = Some j"
  using assms(2) reify_items_mono [of rf rf', OF assms(1)] reify_elems_mono [of rf rf', OF assms(1)]
  by (auto simp add: reify_obj_def split: option.splits pyobj.splits)

lemma reify_Suc: "reify n h v = Some j \<Longrightarrow> reify (Suc n) h v = Some j"
proof (induction n arbitrary: v j)
  case 0
  then show ?case
    by (cases v) (auto simp add: reify_atom_def)
next
  case (Suc n)
  show ?case
  proof (cases v)
    case (VRef a)
    with Suc.prems have o: "reify_obj (reify n h) h a = Some j"
      by simp
    have "reify_obj (reify (Suc n) h) h a = Some j"
      by (rule reify_obj_mono [OF _ o]) (rule Suc.IH)
    with VRef show ?thesis by simp
  qed (use Suc.prems in auto)
qed

lemma reify_add: "reify n h v = Some j \<Longrightarrow> reify (n + d) h v = Some j"
proof (induction d)
  case 0
  then show ?case by simp
next
  case (Suc d)
  then have "reify (n + d) h v = Some j" by simp
  then have "reify (Suc (n + d)) h v = Some j" by (rule reify_Suc)
  then show ?case by (simp only: add_Suc_right)
qed

lemma reify_mono: "reify n h v = Some j \<Longrightarrow> n \<le> n' \<Longrightarrow> reify n' h v = Some j"
  using reify_add [of n h v j "n' - n"] by simp

section \<open>The template in the store\<close>

lemma display_job_params:
  "display job_params_json [] =
     ([ODict [],
       ODict [(''confgen_max_n_conformers'', VInt 50),
              (''confgen_rmsd_threshold'', VFloat ''0.3''), (''charge'', VInt 0),
              (''multiplicity'', VInt 1)],
       ODict [(''do_geometry_optimization'', VBool True),
              (''forcefield_type'', VStr ''MMFF''),
              (''max_n_conformers'', VInt 50), (''energy_threshold'', VInt 15),
              (''rmsd_threshold'', VFloat ''0.3''),
              (''coulomb_distance_threshold'', VFloat ''0.005'')],
       ODict [(''filtertype'', VStr ''ForceField''), (''params'', VRef 2),
              (''key'', VStr ''FF'')],
       ODict [(''max_n_conformers'', VInt 10), (''energy_threshold'', VInt 10),
              (''distance_threshold'', VFloat ''0.005''),
              (''do_geometry_optimization'', VBool True)],
       ODict [(''filtertype'', VStr ''ANI''), (''params'', VRef 4),
              (''key'', VStr ''ANI'')],
       ODict [(''maxiter'', VInt 15), (''energy_threshold'', VInt 5),
              (''do_geometry_optimization'', VBool True),
              (''distance_threshold'', VFloat ''0.005''),
              (''g_thresh'', VFloat ''1e-4'')],
       ODict [(''basisname'', VStr ''def2-svp''),
              (''jkfit_basisname'', VStr ''def2-universal-jkfit''),
              (''methodname'', VStr ''b3lyp-d3''),
              (''xc_grid_scheme'', VStr ''SG1''),
              (''pcm_epsilon'', VFloat ''80.4''),
              (''pcm_spherical_npoint'', VInt 110)],
       ODict [(''params'', VRef 7)],
       ODict [(''g_convergence'', VFloat ''0.000001'')],
       ODict [(''params'', VRef 9)],
       ODict [],
       ODict [(''type'', VStr ''core_dfjk''), (''params'', VRef 11)],
       ODict [(''filtertype'', VStr ''DFT''), (''params'', VRef 6),
              (''system'', VRef 8), (''hf'', VRef 10), (''jk_builder'', VRef 12),
              (''key'', VStr ''DFT Stage 1 (Coarse Filtering)'')],
       OList [VRef 3, VRef 5, VRef 13],
       ODict [(''molecule'', VRef 0), (''params'', VRef 1),
              (''filters'', VRef 14)],
       ODict [(''gpu_type'', VStr ''a100'')],
       ODict [(''name'', VStr ''name_placeholder''), (''version'', VStr ''v1''),
              (''kind'', VStr ''ConformerSearch''), (''parameters'', VRef 15),
              (''resources'', VRef 16)]],
      VRef 17)"
  by (simp add: job_params_json_def)

lemma template_heap_eq: "template_heap = fst (display job_params_json [])"
  by (simp add: template_heap_def)

lemmas template_heap_expl = template_heap_eq [unfolded display_job_params fst_conv]

lemma length_template_heap: "length template_heap = 18"
  by (simp add: template_heap_expl)

lemma template_at_len: "template_at h \<Longrightarrow> 18 \<le> length h"
  by (simp add: template_at_def)

lemma template_at_nth: "template_at h \<Longrightarrow> a < 18 \<Longrightarrow> h ! a = template_heap ! a"
  unfolding template_at_def by (metis nth_take)

lemma template_at_lookup:
  "template_at h \<Longrightarrow> a < 18 \<Longrightarrow> lookup h a = Some (template_heap ! a)"
  using template_at_nth [of h a] by (simp add: lookup_def template_at_def)

lemma template_at_template_heap: "template_at template_heap"
  by (simp add: template_at_def length_template_heap)

lemma template_at_append: "template_at h \<Longrightarrow> template_at (h @ blk)"
  by (simp add: template_at_def)

lemma deepcopy_fuel_template:
  assumes "template_at h"
  shows "\<exists>m'. deepcopy_fuel 6 h [] (VRef 17) =
           Some (h @ template_copy (length h), m', VRef (length h))"
proof -
  from template_at_len [OF assms] have ne: "h \<noteq> []"
    by auto
  from assms template_at_len [OF assms] ne show ?thesis
    by (simp add: deepcopy_fuel_numeral deepcopy_obj_def template_at_lookup template_at_nth
      template_heap_expl heap_eval template_copy_def)
qed

lemma deepcopy_template:
  assumes "template_at h"
  shows "deepcopy h (VRef 17) = Some (h @ template_copy (length h), VRef (length h))"
proof -
  from deepcopy_fuel_template [OF assms] obtain m' where
    "deepcopy_fuel 6 h [] (VRef 17) = Some (h @ template_copy (length h), m', VRef (length h))"
    by blast
  moreover have "6 \<le> Suc (length h)"
    using template_at_len [OF assms] by simp
  ultimately have
    "deepcopy_fuel (Suc (length h)) h [] (VRef 17) =
       Some (h @ template_copy (length h), m', VRef (length h))"
    by (rule deepcopy_fuel_mono)
  then show ?thesis
    by (simp add: deepcopy_def)
qed

lemma length_template_copy: "length (template_copy b) = 18"
  by (simp add: template_copy_def)

lemma length_payload_block: "length (payload_block b enc nm) = 19"
  by (simp add: payload_block_def length_template_copy)

lemma build_payload_template:
  assumes "template_at h"
  shows "build_payload enc nm h (VRef 17) =
           Inr (h @ payload_block (length h) enc nm, VRef (length h))"
  by (simp add: build_payload_def deepcopy_template [OF assms] setitem_def getitem_def
      lookup_append list_update_append template_copy_def payload_block_def
      lookup_Cons_0 lookup_Cons_Suc lookup_Cons_numeral lookup_Nil)

section \<open>Deep values of the template and of a payload\<close>

lemma reify_template:
  assumes "template_at h"
  shows "reify 6 h (VRef 17) = Some job_params_json"
  using assms template_at_len [OF assms]
  by (simp add: reify_numeral reify_obj_def reify_atom_def template_at_lookup
      template_heap_expl job_params_json_def)

lemma snapshot_template:
  assumes "template_at h"
  shows "snapshot h (VRef 17) = Some job_params_json"
proof -
  have "6 \<le> Suc (length h)"
    using template_at_len [OF assms] by simp
  with reify_template [OF assms] show ?thesis
    unfolding snapshot_def by (rule reify_mono)
qed

lemma reify_payload_block:
  assumes "length pre = b"
  shows "reify 6 (pre @ payload_block b enc nm @ post) (VRef b) = Some (payload_json enc nm)"
  using assms
  by (simp add: reify_numeral reify_obj_def reify_atom_def lookup_append
      lookup_Cons_0 lookup_Cons_Suc lookup_Cons_numeral lookup_Nil
      payload_block_def template_copy_def
      payload_json_def job_params_json_def jget_def jset_def molecule_json_def)

lemma snapshot_payload_block:
  assumes "length pre = b"
  shows "snapshot (pre @ payload_block b enc nm @ post) (VRef b) = Some (payload_json enc nm)"
proof -
  have "6 \<le> Suc (length (pre @ payload_block b enc nm @ post))"
    by (simp add: length_payload_block)
  with reify_payload_block [OF assms] show ?thesis
    unfolding snapshot_def by (rule reify_mono)
qed

lemma owns_template:
  assumes "template_at h"
  shows "owns h (VRef 17) 0 18 job_params_json"
  unfolding owns_def
proof (intro allI impI)
  fix g
  assume g: "length g = length h \<and> (\<forall>a. 0 \<le> a \<and> a < 18 \<longrightarrow> g ! a = h ! a)"
  have "take 18 g = take 18 h"
    using g template_at_len [OF assms] by (intro nth_equalityI) auto
  with g assms have "template_at g"
    by (simp add: template_at_def)
  then show "snapshot g (VRef 17) = Some job_params_json"
    by (rule snapshot_template)
qed

lemma owns_payload_block:
  assumes "h = pre @ payload_block (length pre) enc nm @ post"
  shows "owns h (VRef (length pre)) (length pre) (length pre + 19) (payload_json enc nm)"
  unfolding owns_def
proof (intro allI impI)
  fix g
  let ?b = "length pre"
  assume g: "length g = length h \<and> (\<forall>a. ?b \<le> a \<and> a < ?b + 19 \<longrightarrow> g ! a = h ! a)"
  have len: "?b + 19 \<le> length g"
    using g assms by (simp add: length_payload_block)
  have mid: "take 19 (drop ?b g) = payload_block ?b enc nm"
  proof (intro nth_equalityI)
    show "length (take 19 (drop ?b g)) = length (payload_block ?b enc nm)"
      using len by (simp add: length_payload_block)
  next
    fix i
    assume "i < length (take 19 (drop ?b g))"
    then have i: "i < 19" by simp
    with g have "g ! (?b + i) = h ! (?b + i)" by simp
    also have "\<dots> = payload_block ?b enc nm ! i"
      using i by (simp add: assms nth_append length_payload_block)
    finally show "take 19 (drop ?b g) ! i = payload_block ?b enc nm ! i"
      using i len by simp
  qed
  have "g = take ?b g @ take 19 (drop ?b g) @ drop 19 (drop ?b g)"
    by (simp only: append_take_drop_id)
  then have split: "g = take ?b g @ payload_block ?b enc nm @ drop 19 (drop ?b g)"
    by (simp only: mid)
  have "length (take ?b g) = ?b"
    using len by simp
  then have "snapshot (take ?b g @ payload_block ?b enc nm @ drop 19 (drop ?b g)) (VRef ?b)
      = Some (payload_json enc nm)"
    by (rule snapshot_payload_block)
  with split show "snapshot g (VRef ?b) = Some (payload_json enc nm)"
    by simp
qed

lemma owns_snapshot: "owns h v lo hi j \<Longrightarrow> snapshot h v = Some j"
  by (simp add: owns_def)

section \<open>Reading traces\<close>

lemma requests_Nil: "requests [] = []"
  and requests_append: "requests (es @ es') = requests es @ requests es'"
  and requests_Cons: "requests (e # es) = request_of e @ requests es"
  by (simp_all add: requests_def)

lemma submits_Nil: "submits [] = []"
  and submits_append: "submits (es @ es') = submits es @ submits es'"
  and submits_Cons: "submits (e # es) = submit_of e @ submits es"
  by (simp_all add: submits_def)

lemma gets_Nil: "gets [] = []"
  and gets_append: "gets (es @ es') = gets es @ gets es'"
  and gets_Cons: "gets (e # es) = get_of e @ gets es"
  by (simp_all add: gets_def)

lemma opens_Nil: "opens [] = []"
  and opens_append: "opens (es @ es') = opens es @ opens es'"
  and opens_Cons: "opens (e # es) = open_of e @ opens es"
  by (simp_all add: opens_def)

lemma calls_Nil: "calls [] = []"
  and calls_append: "calls (es @ es') = calls es @ calls es'"
  and calls_Cons: "calls (e # es) = call_of e @ calls es"
  by (simp_all add: calls_def)

lemmas trace_simps =
  requests_Nil requests_append requests_Cons submits_Nil submits_append submits_Cons
  gets_Nil gets_append gets_Cons opens_Nil opens_append opens_Cons
  calls_Nil calls_append calls_Cons
  request_of_def submit_of_def get_of_def open_of_def call_of_def
  first_loop_event_def second_loop_event_def

lemma ids_of_Nil: "ids_of [] = []"
  and ids_of_append: "ids_of (es @ es') = ids_of es @ ids_of es'"
  and ids_of_Cons: "ids_of (e # es) = id_of e @ ids_of es"
  by (simp_all add: ids_of_def)

section \<open>One round of the first loop\<close>

lemma do_build_template:
  assumes "template_at (heap st)" and "job_params st = VRef 17"
  shows "do_build k smile nm st =
    (Inr (VRef (length (heap st))),
     st\<lparr>heap := heap st @ payload_block (length (heap st)) (base64encode k smile) nm\<rparr>)"
  using assms by (simp add: do_build_def build_payload_template)

lemma snapshot_after_build:
  "snapshot (h @ payload_block (length h) enc nm) (VRef (length h)) = Some (payload_json enc nm)"
  using snapshot_payload_block [of h "length h" enc nm "[]"] by simp

lemma submit_body_spec:
  assumes t: "template_at (heap st)" and jp: "job_params st = VRef 17"
    and b: "submit_body k (smile, nm) st = (r, st')"
  shows "heap st' = heap st @ payload_block (length (heap st)) (base64encode k smile) nm \<and>
    job_params st' = job_params st \<and> fs st' = fs st \<and>
    base_url st' = base_url st \<and> gpu_type st' = gpu_type st \<and>
    (case create_request k (payload_json (base64encode k smile) nm) of
       Inl msg \<Rightarrow>
         r = Inl (SdkError msg) \<and> remote st' = remote st \<and>
         workflow_ids st' = workflow_ids st \<and>
         trace st' = trace st @
           [EvRequest (VRef (length (heap st))) (payload_json (base64encode k smile) nm) (Some msg)]
     | Inr q \<Rightarrow>
         (case submit k q (remote st) of
            (Inl msg, s') \<Rightarrow>
              r = Inl (SdkError msg) \<and> remote st' = s' \<and>
              workflow_ids st' = workflow_ids st \<and>
              trace st' = trace st @
                [EvRequest (VRef (length (heap st))) (payload_json (base64encode k smile) nm) None,
                 EvSubmit q (Inl msg)]
          | (Inr w, s') \<Rightarrow>
              r = Inr () \<and> remote st' = s' \<and>
              workflow_ids st' = workflow_ids st @ [wf_id w] \<and>
              trace st' = trace st @
                [EvRequest (VRef (length (heap st))) (payload_json (base64encode k smile) nm) None,
                 EvSubmit q (Inr w),
                 EvPrint [Txt ''Workflow '', Txt (wf_name w),
                          Txt '' submitted with id: '', Txt (wf_id w)]]))"
  using b
  by (auto simp add: submit_body_def pbind_def do_build_template [OF t jp] do_request_def
      snapshot_after_build do_submit_def do_record_def log_def sdk_result_def
      split: sum.splits prod.splits)

section \<open>The first loop\<close>

lemma for_each_Inl:
  "body x st = (Inl e, st') \<Longrightarrow> for_each body (x # xs) st = (Inl e, st')"
  by simp

lemma for_each_Inr:
  "body x st = (Inr u, st') \<Longrightarrow> for_each body (x # xs) st = for_each body xs st'"
  by simp

lemma submit_loop_spec:
  assumes "template_at (heap st)" and "job_params st = VRef 17"
    and "for_each (submit_body k) ps st = (r, st')"
  shows "\<exists>n evs es.
    submit_spec k ps (remote st) = (r, n, evs, remote st') \<and> n \<le> length ps \<and>
    heap st' = grow (base64encode k) (take n ps) (heap st) \<and>
    trace st' = trace st @ es \<and> list_all first_loop_event es \<and>
    requests es = reqs_at (base64encode k) (length (heap st)) (take n ps) \<and>
    submits es = evs \<and>
    workflow_ids st' = workflow_ids st @ ids_of evs \<and>
    job_params st' = job_params st \<and> fs st' = fs st \<and>
    base_url st' = base_url st \<and> gpu_type st' = gpu_type st"
  using assms
proof (induction ps arbitrary: st)
  case Nil
  then show ?case by (auto simp add: trace_simps ids_of_Nil)
next
  case (Cons p ps)
  obtain smile nm where p: "p = (smile, nm)" by (cases p)
  obtain r1 st1 where b: "submit_body k (smile, nm) st = (r1, st1)"
    by (cases "submit_body k (smile, nm) st")
  note spec = submit_body_spec [OF Cons.prems(1,2) b]
  let ?j = "payload_json (base64encode k smile) nm"
  show ?case
  proof (cases "create_request k ?j")
    case (Inl msg)
    with spec b Cons.prems(3) show ?thesis
      by (auto simp add: p trace_simps ids_of_def)
  next
    case (Inr q)
    obtain a s1 where sub: "submit k q (remote st) = (a, s1)"
      by (cases "submit k q (remote st)")
    show ?thesis
    proof (cases a)
      case (Inl msg)
      with spec b Cons.prems(3) Inr sub show ?thesis
        by (auto simp add: p trace_simps ids_of_def id_of_def)
    next
      case w: (Inr w)
      from spec Inr sub w have r1: "r1 = Inr ()" by simp
      with b Cons.prems(3) have loop: "for_each (submit_body k) ps st1 = (r, st')"
        by (simp add: p)
      from spec have t1: "template_at (heap st1)" and j1: "job_params st1 = VRef 17"
        using Cons.prems(1,2) by (simp_all add: template_at_append)
      from Cons.IH [OF t1 j1 loop] obtain n evs es where ih:
        "submit_spec k ps (remote st1) = (r, n, evs, remote st')" "n \<le> length ps"
        "heap st' = grow (base64encode k) (take n ps) (heap st1)"
        "trace st' = trace st1 @ es" "list_all first_loop_event es"
        "requests es = reqs_at (base64encode k) (length (heap st1)) (take n ps)"
        "submits es = evs"
        "workflow_ids st' = workflow_ids st1 @ ids_of evs"
        "job_params st' = job_params st1" "fs st' = fs st1"
        "base_url st' = base_url st1" "gpu_type st' = gpu_type st1"
        by blast
      let ?es1 = "[EvRequest (VRef (length (heap st))) ?j None, EvSubmit q (Inr w),
                   EvPrint [Txt ''Workflow '', Txt (wf_name w),
                            Txt '' submitted with id: '', Txt (wf_id w)]]"
      from spec Inr sub w have s: "remote st1 = s1"
        "workflow_ids st1 = workflow_ids st @ [wf_id w]"
        "trace st1 = trace st @ ?es1"
        "heap st1 = heap st @ payload_block (length (heap st)) (base64encode k smile) nm"
        "job_params st1 = job_params st" "fs st1 = fs st"
        "base_url st1 = base_url st" "gpu_type st1 = gpu_type st"
        by simp_all
      have c1: "submit_spec k (p # ps) (remote st) = (r, Suc n, (q, Inr w) # evs, remote st')"
        using ih(1) Inr sub w s(1) by (simp add: p)
      have c2: "heap st' = grow (base64encode k) (take (Suc n) (p # ps)) (heap st)"
        using ih(3) s(4) by (simp add: p)
      have c3: "trace st' = trace st @ (?es1 @ es)"
        using ih(4) s(3) by simp
      have c4: "list_all first_loop_event (?es1 @ es)"
        using ih(5) by (simp add: first_loop_event_def)
      have c5: "requests (?es1 @ es) =
          reqs_at (base64encode k) (length (heap st)) (take (Suc n) (p # ps))"
        using ih(6) s(4) by (simp add: p trace_simps length_payload_block)
      have c6: "submits (?es1 @ es) = (q, Inr w) # evs"
        using ih(7) by (simp add: trace_simps)
      have c7: "workflow_ids st' = workflow_ids st @ ids_of ((q, Inr w) # evs)"
        using ih(8) s(2) by (simp add: ids_of_Cons id_of_def)
      have c8: "Suc n \<le> length (p # ps)"
        using ih(2) by simp
      have c9: "job_params st' = job_params st" "fs st' = fs st"
        "base_url st' = base_url st" "gpu_type st' = gpu_type st"
        using ih(9,10,11,12) s(5,6,7,8) by simp_all
      show ?thesis
        apply (rule exI [where x = "Suc n"])
        apply (rule exI [where x = "(q, Inr w) # evs"])
        apply (rule exI [where x = "?es1 @ es"])
        apply (intro conjI)
        apply (fact c1 c2 c3 c4 c5 c6 c7 c8 c9)+
        done
    qed
  qed
qed

section \<open>Properties of the submission loop\<close>

lemma submit_spec_bounds:
  "submit_spec k ps s = (r, n, evs, s') \<Longrightarrow>
     n \<le> length ps \<and> length evs \<le> n \<and> length (ids_of evs) \<le> length evs \<and>
     (r = Inr () \<longrightarrow> n = length ps \<and> length evs = length ps \<and>
        length (ids_of evs) = length ps)"
proof (induction ps arbitrary: s r n evs s')
  case Nil
  then show ?case by (auto simp add: ids_of_Nil)
next
  case (Cons p ps)
  obtain smile nm where p: "p = (smile, nm)" by (cases p)
  show ?case
  proof (cases "create_request k (payload_json (base64encode k smile) nm)")
    case (Inl msg)
    with Cons.prems show ?thesis by (auto simp add: p ids_of_Nil)
  next
    case (Inr q)
    obtain a s1 where sub: "submit k q s = (a, s1)" by (cases "submit k q s")
    show ?thesis
    proof (cases a)
      case (Inl msg)
      with Cons.prems Inr sub show ?thesis
        by (auto simp add: p ids_of_def id_of_def)
    next
      case w: (Inr w)
      obtain r2 n2 evs2 s2 where rec: "submit_spec k ps s1 = (r2, n2, evs2, s2)"
        by (cases "submit_spec k ps s1")
      from Cons.prems Inr sub w rec have
        eq: "r = r2" "n = Suc n2" "evs = (q, Inr w) # evs2"
        by (simp_all add: p)
      from Cons.IH [OF rec] show ?thesis
        by (simp add: eq ids_of_Cons id_of_def)
    qed
  qed
qed

lemma submit_spec_nth:
  "submit_spec k ps s = (r, n, evs, s') \<Longrightarrow> i < length evs \<Longrightarrow>
     create_request k (payload_json (base64encode k (fst (ps ! i))) (snd (ps ! i)))
       = Inr (fst (evs ! i)) \<and>
     (\<forall>msg. snd (evs ! i) = Inl msg \<longrightarrow>
        Suc i = length evs \<and> r = Inl (SdkError msg) \<and> length (ids_of evs) = i) \<and>
     (r = Inr () \<longrightarrow> (\<exists>w. snd (evs ! i) = Inr w \<and> ids_of evs ! i = wf_id w))"
proof (induction ps arbitrary: s r n evs s' i)
  case Nil
  then show ?case by simp
next
  case (Cons p ps)
  obtain smile nm where p: "p = (smile, nm)" by (cases p)
  show ?case
  proof (cases "create_request k (payload_json (base64encode k smile) nm)")
    case (Inl msg)
    with Cons.prems show ?thesis by (auto simp add: p)
  next
    case (Inr q)
    obtain a s1 where sub: "submit k q s = (a, s1)" by (cases "submit k q s")
    show ?thesis
    proof (cases a)
      case (Inl msg)
      with Cons.prems Inr sub show ?thesis
        by (auto simp add: p ids_of_def id_of_def)
    next
      case w: (Inr w)
      obtain r2 n2 evs2 s2 where rec: "submit_spec k ps s1 = (r2, n2, evs2, s2)"
        by (cases "submit_spec k ps s1")
      from Cons.prems(1) Inr sub w rec have
        eq: "r = r2" "n = Suc n2" "evs = (q, Inr w) # evs2"
        by (simp_all add: p)
      show ?thesis
      proof (cases i)
        case 0
        then show ?thesis
          using Inr by (simp add: eq p ids_of_Cons id_of_def)
      next
        case (Suc i')
        with Cons.prems(2) have "i' < length evs2" by (simp add: eq)
        from Cons.IH [OF rec this] show ?thesis
          by (simp add: eq Suc ids_of_Cons id_of_def)
      qed
    qed
  qed
qed

lemma submit_spec_total:
  assumes "\<And>j. \<exists>q. create_request k j = Inr q"
    and "\<And>q s. \<exists>w. fst (submit k q s) = Inr w"
  shows "fst (submit_spec k ps s) = Inr ()"
proof (induction ps arbitrary: s)
  case Nil
  then show ?case by simp
next
  case (Cons p ps)
  obtain smile nm where p: "p = (smile, nm)" by (cases p)
  from assms(1) obtain q where
    q: "create_request k (payload_json (base64encode k smile) nm) = Inr q"
    by blast
  from assms(2) [of q s] obtain w s1 where sub: "submit k q s = (Inr w, s1)"
    by (cases "submit k q s") auto
  from Cons.IH [of s1] show ?case
    by (auto simp add: p q sub split: prod.splits)
qed

section \<open>Before the first loop\<close>

lemma display_job_params_fst: "fst (display job_params_json []) = template_heap"
  by (simp add: template_heap_def)

lemma display_job_params_snd: "snd (display job_params_json []) = VRef 17"
  by (simp add: display_job_params)

lemma module_init_spec:
  assumes "module_init env fs0 r0 = (r, st)"
  shows "r = Inr () \<and> heap st = template_heap \<and> job_params st = VRef 17 \<and>
    workflow_ids st = [] \<and> remote st = r0 \<and>
    base_url st = getenv env ''PM_API_BASE_URL'' ''https://api.promethium.qcware.com'' \<and>
    gpu_type st = getenv env ''PM_GPU_TYPE'' ''a100'' \<and>
    fs st = (if fs0 foldername = None then fs0(foldername \<mapsto> Dir) else fs0) \<and>
    trace st = (if fs0 foldername = None then [EvMakedirs foldername] else [])"
proof -
  obtain h jp where d: "display job_params_json [] = (h, jp)"
    by (cases "display job_params_json []")
  from d display_job_params_fst display_job_params_snd have "h = template_heap" "jp = VRef 17"
    by simp_all
  with assms d show ?thesis
    by (auto simp add: module_init_def Let_def path_exists_def makedirs_def log_def
        split: if_splits)
qed

lemma submit_phase_spec:
  fixes k :: "('s, 'req, 'res) sdk"
  assumes "submit_phase k env fs0 r0 smiles names = (r, st)"
  shows "\<exists>c s1 n evs es.
    client_init k env r0 = (c, s1) \<and>
    (case c of
       Some msg \<Rightarrow> r = Inl (SdkError msg) \<and> n = 0 \<and> evs = [] \<and> es = [] \<and> remote st = s1
     | None \<Rightarrow> submit_spec k (zip smiles names) s1 = (r, n, evs, remote st)) \<and>
    n \<le> length (zip smiles names) \<and>
    heap st = grow (base64encode k) (take n (zip smiles names)) template_heap \<and>
    trace st = (if fs0 foldername = None then [EvMakedirs foldername] else [])
                 @ [EvClientInit c] @ es \<and>
    list_all first_loop_event es \<and>
    requests es = reqs_at (base64encode k) 18 (take n (zip smiles names)) \<and>
    submits es = evs \<and>
    workflow_ids st = ids_of evs \<and>
    job_params st = VRef 17 \<and>
    fs st = (if fs0 foldername = None then fs0(foldername \<mapsto> Dir) else fs0) \<and>
    base_url st = getenv env ''PM_API_BASE_URL'' ''https://api.promethium.qcware.com'' \<and>
    gpu_type st = getenv env ''PM_GPU_TYPE'' ''a100''"
proof -
  obtain r' and st0 :: "('s, 'req, 'res) state" where mi: "module_init env fs0 r0 = (r', st0)"
    by (cases "module_init env fs0 r0 :: (exn + unit) \<times> ('s, 'req, 'res) state")
  note m = module_init_spec [OF mi]
  obtain c s1 where ci: "client_init k env r0 = (c, s1)"
    by (cases "client_init k env r0")
  let ?st1 = "log (EvClientInit c) (st0\<lparr>remote := s1\<rparr>)"
  have nc: "new_client k env st0 = (sdk_outcome c, ?st1)"
    using m ci by (simp add: new_client_def)
  show ?thesis
  proof (cases c)
    case (Some msg)
    with assms mi m nc have "r = Inl (SdkError msg)" "st = ?st1"
      by (simp_all add: submit_phase_def pbind_def sdk_outcome_def)
    with m ci Some show ?thesis
      by (simp add: log_def trace_simps ids_of_Nil)
  next
    case None
    with assms mi m nc have loop: "for_each (submit_body k) (zip smiles names) ?st1 = (r, st)"
      by (simp add: submit_phase_def pbind_def sdk_outcome_def submit_loop_def)
    have t: "template_at (heap ?st1)" and j: "job_params ?st1 = VRef 17"
      using m by (simp_all add: log_def template_at_template_heap)
    from submit_loop_spec [OF t j loop] obtain n evs es where s:
      "submit_spec k (zip smiles names) (remote ?st1) = (r, n, evs, remote st)"
      "n \<le> length (zip smiles names)"
      "heap st = grow (base64encode k) (take n (zip smiles names)) (heap ?st1)"
      "trace st = trace ?st1 @ es" "list_all first_loop_event es"
      "requests es = reqs_at (base64encode k) (length (heap ?st1)) (take n (zip smiles names))"
      "submits es = evs"
      "workflow_ids st = workflow_ids ?st1 @ ids_of evs"
      "job_params st = job_params ?st1" "fs st = fs ?st1"
      "base_url st = base_url ?st1" "gpu_type st = gpu_type ?st1"
      by blast
    show ?thesis
      apply (rule exI [where x = c])
      apply (rule exI [where x = s1])
      apply (rule exI [where x = n])
      apply (rule exI [where x = evs])
      apply (rule exI [where x = es])
      using s m ci None
      apply (simp add: log_def length_template_heap)
      done
  qed
qed

section \<open>Evaluating the first phase\<close>

lemma submit_phase_eval:
  fixes k :: "('s, 'req, 'res) sdk"
  assumes "client_init k env r0 = (None, s1)"
    and "submit_spec k (zip smiles names) s1 = (r, n, evs, s2)"
  shows "\<exists>(st :: ('s, 'req, 'res) state) es.
    submit_phase k env fs0 r0 smiles names = (r, st) \<and>
    remote st = s2 \<and> workflow_ids st = ids_of evs \<and>
    heap st = grow (base64encode k) (take n (zip smiles names)) template_heap \<and>
    trace st = (if fs0 foldername = None then [EvMakedirs foldername] else [])
                 @ [EvClientInit None] @ es \<and>
    list_all first_loop_event es \<and>
    requests es = reqs_at (base64encode k) 18 (take n (zip smiles names)) \<and>
    submits es = evs \<and> job_params st = VRef 17 \<and>
    fs st = (if fs0 foldername = None then fs0(foldername \<mapsto> Dir) else fs0) \<and>
    base_url st = getenv env ''PM_API_BASE_URL'' ''https://api.promethium.qcware.com'' \<and>
    gpu_type st = getenv env ''PM_GPU_TYPE'' ''a100''"
proof -
  obtain r' and st :: "('s, 'req, 'res) state" where
    sp: "submit_phase k env fs0 r0 smiles names = (r', st)"
    by (cases "submit_phase k env fs0 r0 smiles names :: (exn + unit) \<times> ('s, 'req, 'res) state")
  from submit_phase_spec [OF sp] assms show ?thesis
    unfolding sp by auto
qed

lemma jget_payload_name:
  "jget (payload_json enc nm) ''name'' = Some (JStr (nm @ ''_api_conformer-search''))"
  by (simp add: payload_json_def job_params_json_def jget_def jset_def)

lemma mock_client_init: "client_init (mock_sdk rej) env s = (None, s)"
  by (simp add: mock_sdk_def)

lemma mock_create_request:
  "create_request (mock_sdk rej) (payload_json enc nm) = Inr (nm @ ''_api_conformer-search'')"
  by (simp add: mock_sdk_def mock_request_def jget_payload_name)

lemma mock_submit_eq: "submit (mock_sdk rej) = mock_submit rej"
  by (simp add: mock_sdk_def)

lemma mock_spec_one:
  "submit_spec (mock_sdk []) (zip [''CCOCC''] [''Diethyl_Ether'']) [] =
     (Inr (), 1,
      [(''Diethyl_Ether_api_conformer-search'',
        Inr \<lparr>wf_id = ''id-Diethyl_Ether_api_conformer-search'',
             wf_name = ''Diethyl_Ether_api_conformer-search'',
             wf_status = ''running'', wf_duration_seconds = ''0.0''\<rparr>)],
      [\<lparr>wf_id = ''id-Diethyl_Ether_api_conformer-search'',
        wf_name = ''Diethyl_Ether_api_conformer-search'',
        wf_status = ''running'', wf_duration_seconds = ''0.0''\<rparr>])"
  by (simp add: mock_create_request mock_submit_eq mock_submit_def Let_def)

lemma mock_spec_two:
  "submit_spec (mock_sdk []) (zip SMILES SMILES_Names) [] =
     (Inr (), 2,
      [(''Diethyl_Ether_api_conformer-search'',
        Inr \<lparr>wf_id = ''id-Diethyl_Ether_api_conformer-search'',
             wf_name = ''Diethyl_Ether_api_conformer-search'',
             wf_status = ''running'', wf_duration_seconds = ''0.0''\<rparr>),
       (''Nirmatrelvir_api_conformer-search'',
        Inr \<lparr>wf_id = ''id-Nirmatrelvir_api_conformer-search'',
             wf_name = ''Nirmatrelvir_api_conformer-search'',
             wf_status = ''running'', wf_duration_seconds = ''0.0''\<rparr>)],
      [\<lparr>wf_id = ''id-Diethyl_Ether_api_conformer-search'',
        wf_name = ''Diethyl_Ether_api_conformer-search'',
        wf_status = ''running'', wf_duration_seconds = ''0.0''\<rparr>,
       \<lparr>wf_id = ''id-Nirmatrelvir_api_conformer-search'',
        wf_name = ''Nirmatrelvir_api_conformer-search'',
        wf_status = ''running'', wf_duration_seconds = ''0.0''\<rparr>])"
  by (simp add: SMILES_def SMILES_Names_def mock_create_request mock_submit_eq mock_submit_def Let_def)

section \<open>C4\<close>

text \<open>
  C4. When the submission loop has finished (lines 126 to 136 ran to the end), the list
  \<open>workflow_ids\<close> holds one identifier per input pair, and the identifier at position \<open>i\<close>
  is the \<open>id\<close> of the workflow that \<open>submit\<close> returned for the request built from the
  pair at position \<open>i\<close>: the submissions were made in input order.
\<close>

theorem C4_workflow_ids_in_input_order:
  assumes "submit_phase k env fs0 r0 smiles names = (Inr (), st)"
  shows "length (workflow_ids st) = length (zip smiles names) \<and>
    length (submits (trace st)) = length (zip smiles names) \<and>
    (\<forall>i. i < length (zip smiles names) \<longrightarrow>
       create_request k (payload_json (base64encode k (smiles ! i)) (names ! i))
         = Inr (fst (submits (trace st) ! i)) \<and>
       (\<exists>w. snd (submits (trace st) ! i) = Inr w \<and> workflow_ids st ! i = wf_id w))"
proof -
  from submit_phase_spec [OF assms] obtain c s1 n evs es where s:
    "client_init k env r0 = (c, s1)"
    "case c of
       Some msg \<Rightarrow> Inr () = Inl (SdkError msg) \<and> n = 0 \<and> evs = [] \<and> es = [] \<and> remote st = s1
     | None \<Rightarrow> submit_spec k (zip smiles names) s1 = (Inr (), n, evs, remote st)"
    "trace st = (if fs0 foldername = None then [EvMakedirs foldername] else [])
                 @ [EvClientInit c] @ es"
    "submits es = evs" "workflow_ids st = ids_of evs"
    by blast
  from s(2) have spec: "submit_spec k (zip smiles names) s1 = (Inr (), n, evs, remote st)"
    by (cases c) simp_all
  have sub: "submits (trace st) = evs"
    using s(3,4) by (simp add: trace_simps)
  from submit_spec_bounds [OF spec] have len:
    "length evs = length (zip smiles names)" "length (ids_of evs) = length (zip smiles names)"
    by simp_all
  show ?thesis
  proof (intro conjI allI impI)
    fix i
    assume i: "i < length (zip smiles names)"
    then have i': "i < length evs" by (simp add: len)
    from i have z: "zip smiles names ! i = (smiles ! i, names ! i)" by simp
    from submit_spec_nth [OF spec i'] z
    show "create_request k (payload_json (base64encode k (smiles ! i)) (names ! i))
            = Inr (fst (submits (trace st) ! i))"
      and "\<exists>w. snd (submits (trace st) ! i) = Inr w \<and> workflow_ids st ! i = wf_id w"
      by (simp_all add: sub s(5))
  qed (simp_all add: sub s(5) len)
qed

theorem C4_witness:
  "fst (submit_phase (mock_sdk []) Map.empty no_files [] SMILES SMILES_Names) = Inr () \<and>
   length (zip SMILES SMILES_Names) = 2 \<and>
   workflow_ids (snd (submit_phase (mock_sdk []) Map.empty no_files [] SMILES SMILES_Names))
     = [''id-Diethyl_Ether_api_conformer-search'', ''id-Nirmatrelvir_api_conformer-search''] \<and>
   length (submits (trace (snd (submit_phase (mock_sdk []) Map.empty no_files []
     SMILES SMILES_Names)))) = 2"
proof -
  from submit_phase_eval [OF mock_client_init mock_spec_two, of Map.empty no_files]
  obtain st :: "(workflow list, string, string) state" where st:
    "submit_phase (mock_sdk []) Map.empty no_files [] SMILES SMILES_Names = (Inr (), st)"
    "workflow_ids st = ids_of
      [(''Diethyl_Ether_api_conformer-search'',
        Inr \<lparr>wf_id = ''id-Diethyl_Ether_api_conformer-search'',
             wf_name = ''Diethyl_Ether_api_conformer-search'',
             wf_status = ''running'', wf_duration_seconds = ''0.0''\<rparr>),
       (''Nirmatrelvir_api_conformer-search'',
        Inr \<lparr>wf_id = ''id-Nirmatrelvir_api_conformer-search'',
             wf_name = ''Nirmatrelvir_api_conformer-search'',
             wf_status = ''running'', wf_duration_seconds = ''0.0''\<rparr>)]"
    by blast
  have two: "length (zip SMILES SMILES_Names) = 2"
    by (simp add: SMILES_def SMILES_Names_def)
  from C4_workflow_ids_in_input_order [OF st(1)] two st show ?thesis
    by (simp add: ids_of_def id_of_def)
qed

section \<open>Composing steps\<close>

lemma pbind_rel:
  assumes "pbind m f st = (r, st')"
    and m: "\<And>r1 st1. m st = (r1, st1) \<Longrightarrow> R st st1"
    and f: "\<And>x st1 r2 st2. m st = (Inr x, st1) \<Longrightarrow> f x st1 = (r2, st2) \<Longrightarrow> R st1 st2"
    and trans: "\<And>a b c. R a b \<Longrightarrow> R b c \<Longrightarrow> R a c"
  shows "R st st'"
proof -
  obtain r1 st1 where ms: "m st = (r1, st1)" by (cases "m st")
  show ?thesis
  proof (cases r1)
    case (Inl e)
    with ms assms(1) have "st' = st1" by (simp add: pbind_def)
    with m [OF ms] show ?thesis by simp
  next
    case (Inr x)
    with ms assms(1) have fs: "f x st1 = (r, st')" by (simp add: pbind_def)
    from ms Inr have "m st = (Inr x, st1)" by simp
    from m [OF ms] f [OF this fs] show ?thesis by (rule trans)
  qed
qed

lemma for_each_rel:
  assumes "for_each body xs st = (r, st')"
    and step: "\<And>x st r st'. x \<in> set xs \<Longrightarrow> body x st = (r, st') \<Longrightarrow> R st st'"
    and refl: "\<And>a. R a a"
    and trans: "\<And>a b c. R a b \<Longrightarrow> R b c \<Longrightarrow> R a c"
  shows "R st st'"
  using assms(1,2)
proof (induction xs arbitrary: st)
  case Nil
  then show ?case by (simp add: refl)
next
  case (Cons x xs)
  obtain r1 st1 where b: "body x st = (r1, st1)" by (cases "body x st")
  have r1: "R st st1"
    by (rule Cons.prems(2) [OF _ b]) simp
  show ?case
  proof (cases r1)
    case (Inl e)
    with b Cons.prems(1) have "st' = st1" by simp
    with r1 show ?thesis by simp
  next
    case (Inr u)
    with b Cons.prems(1) have "for_each body xs st1 = (r, st')" by simp
    then have "R st1 st'"
      by (rule Cons.IH) (rule Cons.prems(2), simp_all)
    with r1 show ?thesis by (rule trans)
  qed
qed

lemma extends_refl: "extends P st st"
  by (simp add: extends_def)

lemma extends_trans: "extends P a b \<Longrightarrow> extends P b c \<Longrightarrow> extends P a c"
  unfolding extends_def
proof -
  assume "\<exists>es. trace b = trace a @ es \<and> list_all P es"
    and "\<exists>es. trace c = trace b @ es \<and> list_all P es"
  then obtain es1 es2 where
    "trace b = trace a @ es1" "list_all P es1" "trace c = trace b @ es2" "list_all P es2"
    by blast
  then have "trace c = trace a @ (es1 @ es2) \<and> list_all P (es1 @ es2)"
    by simp
  then show "\<exists>es. trace c = trace a @ es \<and> list_all P es"
    by blast
qed

lemma extends_log: "P e \<Longrightarrow> extends P st (log e st)"
  by (simp add: extends_def log_def)

lemma extends_same: "trace st' = trace st \<Longrightarrow> extends P st st'"
  by (simp add: extends_def)

lemma extends_one: "trace st' = trace st @ [e] \<Longrightarrow> P e \<Longrightarrow> extends P st st'"
  by (simp add: extends_def)

lemma extends_two: "trace st' = trace st @ [e, e'] \<Longrightarrow> P e \<Longrightarrow> P e' \<Longrightarrow> extends P st st'"
  by (simp add: extends_def)

section \<open>The steps of the second loop\<close>

lemma do_wait_spec:
  assumes "do_wait k i st = (r, st')"
  shows "trace st' = trace st @ [EvWait i (fst (wait k i (remote st)))] \<and>
    remote st' = snd (wait k i (remote st)) \<and> r = sdk_outcome (fst (wait k i (remote st))) \<and>
    fs st' = fs st \<and> heap st' = heap st \<and> job_params st' = job_params st \<and>
    workflow_ids st' = workflow_ids st \<and> base_url st' = base_url st \<and>
    gpu_type st' = gpu_type st"
  using assms by (auto simp add: do_wait_def log_def split: prod.splits)

lemma do_get_spec:
  assumes "do_get k i st = (r, st')"
  shows "trace st' = trace st @ [EvGet i (fst (get k i (remote st)))] \<and>
    remote st' = snd (get k i (remote st)) \<and> r = sdk_result (fst (get k i (remote st))) \<and>
    fs st' = fs st \<and> heap st' = heap st \<and> job_params st' = job_params st \<and>
    workflow_ids st' = workflow_ids st \<and> base_url st' = base_url st \<and>
    gpu_type st' = gpu_type st"
  using assms by (auto simp add: do_get_def log_def split: prod.splits)

lemma do_report_spec:
  assumes "do_report w st = (r, st')"
  shows "trace st' = trace st @
      [EvPrint [Txt ''Workflow '', Txt (wf_name w), Txt '' completed with status: '',
                Txt (wf_status w)],
       EvPrint [Txt ''Workflow completed in '', Fixed2 (wf_duration_seconds w), Txt ''s'']] \<and>
    remote st' = remote st \<and> r = Inr () \<and>
    fs st' = fs st \<and> heap st' = heap st \<and> job_params st' = job_params st \<and>
    workflow_ids st' = workflow_ids st \<and> base_url st' = base_url st \<and>
    gpu_type st' = gpu_type st"
  using assms by (auto simp add: do_report_def log_def)

lemma do_results_spec:
  assumes "do_results k i st = (r, st')"
  shows "trace st' = trace st @ [EvResults i (fst (results k i (remote st)))] \<and>
    remote st' = snd (results k i (remote st)) \<and>
    r = sdk_result (fst (results k i (remote st))) \<and>
    fs st' = fs st \<and> heap st' = heap st \<and> job_params st' = job_params st \<and>
    workflow_ids st' = workflow_ids st \<and> base_url st' = base_url st \<and>
    gpu_type st' = gpu_type st"
  using assms by (auto simp add: do_results_def log_def split: prod.splits)

lemma do_write_spec:
  assumes "do_write p text st = (r, st')"
  shows "(case write_text (fs st) p text of
            Inl e \<Rightarrow> r = Inl e \<and> fs st' = fs st \<and> trace st' = trace st @ [EvOpen p (Some e)]
          | Inr f \<Rightarrow> r = Inr () \<and> fs st' = f \<and> trace st' = trace st @ [EvOpen p None]) \<and>
    remote st' = remote st \<and> heap st' = heap st \<and> job_params st' = job_params st \<and>
    workflow_ids st' = workflow_ids st \<and> base_url st' = base_url st \<and>
    gpu_type st' = gpu_type st"
  using assms by (auto simp add: do_write_def log_def split: sum.splits)

lemma do_conformers_spec:
  assumes "do_conformers k res st = (r, st')"
  shows "(case get_artifact k res ''conformers'' of
            Inl msg \<Rightarrow> r = Inl (SdkError msg) \<and> trace st' = trace st
          | Inr c \<Rightarrow> r = Inr () \<and>
              trace st' = trace st @ [EvPrint [Txt conformers_header], EvPrint [Txt c]]) \<and>
    fs st' = fs st \<and>
    remote st' = remote st \<and> heap st' = heap st \<and> job_params st' = job_params st \<and>
    workflow_ids st' = workflow_ids st \<and> base_url st' = base_url st \<and>
    gpu_type st' = gpu_type st"
  using assms by (auto simp add: do_conformers_def log_def split: sum.splits)

text \<open>Every step extends the trace by events of a kind, when all events it can log are.\<close>

lemma collect_body_rel:
  assumes b: "collect_body k i st = (r, st')"
    and w_step: "\<And>st r st'. do_wait k i st = (r, st') \<Longrightarrow> R st st'"
    and g_step: "\<And>u st0 st r st'.
        do_wait k i st0 = (Inr u, st) \<Longrightarrow> do_get k i st = (r, st') \<Longrightarrow> R st st'"
    and rep_step: "\<And>w st r st'. do_report w st = (r, st') \<Longrightarrow> R st st'"
    and res_step: "\<And>st r st'. do_results k i st = (r, st') \<Longrightarrow> R st st'"
    and wr_step: "\<And>(w :: workflow) res st r st'.
        do_write (results_path (wf_name w)) (model_dump_json k res) st = (r, st') \<Longrightarrow> R st st'"
    and conf_step: "\<And>res st r st'. do_conformers k res st = (r, st') \<Longrightarrow> R st st'"
    and trans: "\<And>a b c. R a b \<Longrightarrow> R b c \<Longrightarrow> R a c"
  shows "R st st'"
  using b unfolding collect_body_def
  apply (rule pbind_rel)
    apply (rule w_step, assumption)
   apply (erule pbind_rel)
     apply (rule g_step, assumption, assumption)
    apply (erule pbind_rel)
      apply (rule rep_step, assumption)
     apply (erule pbind_rel)
       apply (rule res_step, assumption)
      apply (erule pbind_rel)
        apply (rule wr_step, assumption)
       apply (rule conf_step, assumption)
      apply (rule trans, assumption, assumption)+
  done

section \<open>The second loop\<close>

lemma fetched_Nil: "fetched [] = []"
  and fetched_append: "fetched (es @ es') = fetched es @ fetched es'"
  and fetched_Cons: "fetched (e # es) = result_of e @ fetched es"
  by (simp_all add: fetched_def)

lemma collect_body_frame:
  assumes "collect_body k i st = (r, st')"
  shows "heap st' = heap st \<and> job_params st' = job_params st \<and>
    workflow_ids st' = workflow_ids st \<and> base_url st' = base_url st \<and>
    gpu_type st' = gpu_type st"
  using assms
proof (rule collect_body_rel)
  fix w :: workflow and res st r st'
  assume "do_write (results_path (wf_name w)) (model_dump_json k res) st = (r, st')"
  from do_write_spec [OF this]
  show "heap st' = heap st \<and> job_params st' = job_params st \<and>
    workflow_ids st' = workflow_ids st \<and> base_url st' = base_url st \<and>
    gpu_type st' = gpu_type st"
    by simp
qed (auto dest: do_wait_spec do_get_spec do_report_spec do_results_spec do_conformers_spec)

lemma collect_body_events:
  assumes "collect_body k i st = (r, st')"
  shows "extends second_loop_event st st'"
  using assms
proof (rule collect_body_rel)
  fix st r st'
  assume "do_wait k i st = (r, st')"
  from do_wait_spec [OF this] show "extends second_loop_event st st'"
    by (intro extends_one [where e = "EvWait i (fst (wait k i (remote st)))"])
       (simp_all add: second_loop_event_def)
next
  fix u st0 st r st'
  assume "do_get k i st = (r, st')"
  from do_get_spec [OF this] show "extends second_loop_event st st'"
    by (intro extends_one [where e = "EvGet i (fst (get k i (remote st)))"])
       (simp_all add: second_loop_event_def)
next
  fix w st r st'
  assume "do_report w st = (r, st')"
  from do_report_spec [OF this] show "extends second_loop_event st st'"
    by (simp add: extends_def second_loop_event_def)
next
  fix st r st'
  assume "do_results k i st = (r, st')"
  from do_results_spec [OF this] show "extends second_loop_event st st'"
    by (intro extends_one [where e = "EvResults i (fst (results k i (remote st)))"])
       (simp_all add: second_loop_event_def)
next
  fix w :: workflow and res st r st'
  assume "do_write (results_path (wf_name w)) (model_dump_json k res) st = (r, st')"
  from do_write_spec [OF this] show "extends second_loop_event st st'"
    by (auto simp add: extends_def second_loop_event_def split: sum.splits)
next
  fix res st r st'
  assume "do_conformers k res st = (r, st')"
  from do_conformers_spec [OF this] show "extends second_loop_event st st'"
    by (auto simp add: extends_def second_loop_event_def split: sum.splits)
qed (rule extends_trans)

lemma collect_loop_frame:
  assumes "collect_loop k st = (r, st')"
  shows "heap st' = heap st \<and> job_params st' = job_params st \<and>
    workflow_ids st' = workflow_ids st \<and> base_url st' = base_url st \<and>
    gpu_type st' = gpu_type st"
  using assms unfolding collect_loop_def
  by (rule for_each_rel) (auto dest: collect_body_frame)

lemma collect_loop_events:
  assumes "collect_loop k st = (r, st')"
  shows "extends second_loop_event st st'"
  using assms unfolding collect_loop_def
  by (rule for_each_rel) (auto intro: collect_body_events extends_refl extends_trans)

section \<open>The two phases of a run\<close>

lemma run_split:
  fixes k :: "('s, 'req, 'res) sdk"
  assumes "run k env fs0 r0 smiles names = (r, st)"
  shows "\<exists>r1 (st1 :: ('s, 'req, 'res) state).
    submit_phase k env fs0 r0 smiles names = (r1, st1) \<and>
    (case r1 of Inl e \<Rightarrow> r = Inl e \<and> st = st1 | Inr u \<Rightarrow> collect_loop k st1 = (r, st))"
proof -
  obtain r1 and st1 :: "('s, 'req, 'res) state" where
    sp: "submit_phase k env fs0 r0 smiles names = (r1, st1)"
    by (cases "submit_phase k env fs0 r0 smiles names :: (exn + unit) \<times> ('s, 'req, 'res) state")
  with assms show ?thesis
    by (auto simp add: run_def split: sum.splits)
qed

lemma second_loop_event_projections:
  "list_all second_loop_event es \<Longrightarrow> requests es = [] \<and> submits es = []"
  by (induction es) (auto simp add: trace_simps split: event.splits)

lemma first_loop_event_projections:
  "list_all first_loop_event es \<Longrightarrow>
     calls es = [] \<and> gets es = [] \<and> opens es = [] \<and> fetched es = []"
  by (induction es) (auto simp add: trace_simps fetched_Nil fetched_Cons result_of_def split: event.splits)

lemma run_phases:
  fixes k :: "('s, 'req, 'res) sdk"
  assumes "run k env fs0 r0 smiles names = (r, st)"
  shows "\<exists>r1 (st1 :: ('s, 'req, 'res) state) es.
    submit_phase k env fs0 r0 smiles names = (r1, st1) \<and>
    (case r1 of Inl e \<Rightarrow> r = Inl e \<and> st = st1 | Inr u \<Rightarrow> collect_loop k st1 = (r, st)) \<and>
    trace st = trace st1 @ es \<and> list_all second_loop_event es \<and>
    requests (trace st) = requests (trace st1) \<and> submits (trace st) = submits (trace st1) \<and>
    heap st = heap st1 \<and> job_params st = job_params st1 \<and>
    workflow_ids st = workflow_ids st1 \<and> base_url st = base_url st1 \<and>
    gpu_type st = gpu_type st1"
proof -
  from run_split [OF assms] obtain r1 and st1 :: "('s, 'req, 'res) state" where
    sp: "submit_phase k env fs0 r0 smiles names = (r1, st1)" and
    c: "case r1 of Inl e \<Rightarrow> r = Inl e \<and> st = st1 | Inr u \<Rightarrow> collect_loop k st1 = (r, st)"
    by blast
  have "\<exists>es. trace st = trace st1 @ es \<and> list_all second_loop_event es \<and>
    heap st = heap st1 \<and> job_params st = job_params st1 \<and>
    workflow_ids st = workflow_ids st1 \<and> base_url st = base_url st1 \<and>
    gpu_type st = gpu_type st1"
  proof (cases r1)
    case (Inl e)
    with c show ?thesis by simp
  next
    case (Inr u)
    with c have l: "collect_loop k st1 = (r, st)" by simp
    from collect_loop_events [OF l] collect_loop_frame [OF l] show ?thesis
      by (auto simp add: extends_def)
  qed
  then obtain es where es: "trace st = trace st1 @ es" "list_all second_loop_event es"
    "heap st = heap st1" "job_params st = job_params st1"
    "workflow_ids st = workflow_ids st1" "base_url st = base_url st1"
    "gpu_type st = gpu_type st1"
    by blast
  from second_loop_event_projections [OF es(2)] es(1)
  have "requests (trace st) = requests (trace st1)" "submits (trace st) = submits (trace st1)"
    by (simp_all add: trace_simps)
  with sp c es show ?thesis
    by blast
qed

section \<open>The order of the calls in the second loop\<close>

lemma pbind_emits:
  assumes "pbind m f st = (r, st')"
    and m: "\<And>r1 st1. m st = (r1, st1) \<Longrightarrow> emits c1 st r1 st1"
    and f: "\<And>x st1 r2 st2. f x st1 = (r2, st2) \<Longrightarrow> emits c2 st1 r2 st2"
  shows "emits (c1 @ c2) st r st'"
proof -
  obtain r1 st1 where ms: "m st = (r1, st1)" by (cases "m st")
  from m [OF ms] obtain es1 n1 where e1:
    "trace st1 = trace st @ es1" "calls es1 = take n1 c1"
    "case r1 of Inl e \<Rightarrow> True | Inr x \<Rightarrow> calls es1 = c1"
    unfolding emits_def by blast
  show ?thesis
  proof (cases r1)
    case (Inl e)
    with ms assms(1) have eq: "st' = st1" "r = Inl e" by (simp_all add: pbind_def)
    have "calls es1 = take (min n1 (length c1)) (c1 @ c2)"
      using e1(2) by (simp add: min_def)
    with e1(1) eq show ?thesis
      unfolding emits_def
      by (intro exI [where x = es1] exI [where x = "min n1 (length c1)"]) simp
  next
    case (Inr x)
    with ms assms(1) have fx: "f x st1 = (r, st')" by (simp add: pbind_def)
    from f [OF fx] obtain es2 n2 where e2:
      "trace st' = trace st1 @ es2" "calls es2 = take n2 c2"
      "case r of Inl e \<Rightarrow> True | Inr x \<Rightarrow> calls es2 = c2"
      unfolding emits_def by blast
    from e1(3) Inr have c1: "calls es1 = c1" by simp
    have "trace st' = trace st @ (es1 @ es2)"
      using e1(1) e2(1) by simp
    moreover have "calls (es1 @ es2) = take (length c1 + n2) (c1 @ c2)"
      using c1 e2(2) by (simp add: calls_append)
    moreover have "case r of Inl e \<Rightarrow> True | Inr x \<Rightarrow> calls (es1 @ es2) = c1 @ c2"
      using c1 e2(3) by (simp add: calls_append split: sum.splits)
    ultimately show ?thesis
      unfolding emits_def by blast
  qed
qed

lemma emits_step:
  assumes "trace st' = trace st @ es" and "calls es = cs"
  shows "emits cs st r st'"
  unfolding emits_def
  using assms by (intro exI [where x = es] exI [where x = "length cs"]) (simp split: sum.splits)

lemma collect_body_emits:
  assumes "collect_body k i st = (r, st')"
  shows "emits (wait_get_results i) st r st'"
proof -
  have "emits ([(''wait'', i)] @ [(''get'', i)] @ [] @ [(''results'', i)] @ [] @ []) st r st'"
    using assms unfolding collect_body_def
  proof (intro pbind_emits)
    fix r1 st1
    assume "do_wait k i st = (r1, st1)"
    from do_wait_spec [OF this] show "emits [(''wait'', i)] st r1 st1"
      by (intro emits_step [where es = "[EvWait i (fst (wait k i (remote st)))]"])
         (simp_all add: trace_simps)
  next
    fix st r st'
    assume "do_get k i st = (r, st')"
    from do_get_spec [OF this] show "emits [(''get'', i)] st r st'"
      by (intro emits_step [where es = "[EvGet i (fst (get k i (remote st)))]"])
         (simp_all add: trace_simps)
  next
    fix w st r st'
    assume "do_report w st = (r, st')"
    from do_report_spec [OF this] show "emits [] st r st'"
      by (auto simp add: emits_def trace_simps)
  next
    fix st r st'
    assume "do_results k i st = (r, st')"
    from do_results_spec [OF this] show "emits [(''results'', i)] st r st'"
      by (intro emits_step [where es = "[EvResults i (fst (results k i (remote st)))]"])
         (simp_all add: trace_simps)
  next
    fix p data and st :: "('a, 'b, 'c) state" and r :: "exn + unit" and st'
    assume "do_write p data st = (r, st')"
    from do_write_spec [OF this] show "emits [] st r st'"
      by (auto simp add: emits_def trace_simps split: sum.splits)
  next
    fix res st r st'
    assume "do_conformers k res st = (r, st')"
    from do_conformers_spec [OF this] show "emits [] st r st'"
      by (auto simp add: emits_def trace_simps split: sum.splits)
  qed
  then show ?thesis
    by (simp add: wait_get_results_def)
qed

lemma for_each_emits:
  assumes "for_each body xs st = (r, st')"
    and step: "\<And>x st r st'. body x st = (r, st') \<Longrightarrow> emits (c x) st r st'"
  shows "emits (concat (map c xs)) st r st'"
  using assms(1)
proof (induction xs arbitrary: st r st')
  case Nil
  then show ?case by (auto simp add: emits_def trace_simps)
next
  case (Cons x xs)
  have "pbind (body x) (\<lambda>u. for_each body xs) st = (r, st')"
    using Cons.prems by (simp add: pbind_def split: prod.splits sum.splits)
  then have "emits (c x @ concat (map c xs)) st r st'"
  proof (rule pbind_emits)
    fix r1 st1
    assume "body x st = (r1, st1)"
    then show "emits (c x) st r1 st1" by (rule step)
  next
    fix u :: unit and st1 r2 st2
    assume "for_each body xs st1 = (r2, st2)"
    then show "emits (concat (map c xs)) st1 r2 st2" by (rule Cons.IH)
  qed
  then show ?case by simp
qed

lemma collect_loop_emits:
  assumes "collect_loop k st = (r, st')"
  shows "emits (concat (map wait_get_results (workflow_ids st))) st r st'"
  using assms unfolding collect_loop_def
  by (rule for_each_emits) (rule collect_body_emits)

section \<open>Runs of the test double\<close>

lemma dirname_results_path:
  assumes "CHR ''/'' \<notin> set nm"
  shows "dirname (results_path nm) = foldername"
proof -
  have r: "rev (results_path nm) = rev ''_results.json'' @ rev nm @ ''/'' @ rev ''output''"
    by (simp add: results_path_def foldername_def)
  let ?P = "\<lambda>c. c \<noteq> CHR ''/''"
  have "dropWhile ?P (rev ''_results.json'' @ rev nm @ ''/'' @ rev ''output'')
      = dropWhile ?P (rev nm @ ''/'' @ rev ''output'')"
    by (rule dropWhile_append2) auto
  also have "\<dots> = dropWhile ?P (''/'' @ rev ''output'')"
    by (rule dropWhile_append2) (use assms in auto)
  also have "\<dots> = ''/'' @ rev ''output''"
    by simp
  finally have "dropWhile ?P (rev ''_results.json'' @ rev nm @ ''/'' @ rev ''output'')
      = ''/'' @ rev ''output''" .
  then show ?thesis
    unfolding dirname_def r by (simp add: foldername_def)
qed

lemmas collect_defs =
  collect_body_def pbind_def do_wait_def do_get_def do_report_def do_results_def
  do_write_def do_conformers_def log_def sdk_result_def sdk_outcome_def

lemma mock_collect_one:
  fixes st1 :: "(workflow list, string, string) state"
  assumes "workflow_ids st1 = [''id-Diethyl_Ether_api_conformer-search'']"
    and "remote st1 =
      [\<lparr>wf_id = ''id-Diethyl_Ether_api_conformer-search'',
        wf_name = ''Diethyl_Ether_api_conformer-search'',
        wf_status = ''running'', wf_duration_seconds = ''0.0''\<rparr>]"
    and "fs st1 foldername = Some Dir"
    and "fs st1 ''output/Diethyl_Ether_api_conformer-search_results.json'' \<noteq> Some Dir"
  shows "fst (collect_loop (mock_sdk rej) st1) = Inr () \<and>
    trace (snd (collect_loop (mock_sdk rej) st1)) = trace st1 @
      [EvWait ''id-Diethyl_Ether_api_conformer-search'' None,
       EvGet ''id-Diethyl_Ether_api_conformer-search''
         (Inr \<lparr>wf_id = ''id-Diethyl_Ether_api_conformer-search'',
               wf_name = ''Diethyl_Ether_api_conformer-search'',
               wf_status = ''completed'', wf_duration_seconds = ''1.5''\<rparr>),
       EvPrint [Txt ''Workflow '', Txt ''Diethyl_Ether_api_conformer-search'',
                Txt '' completed with status: '', Txt ''completed''],
       EvPrint [Txt ''Workflow completed in '', Fixed2 ''1.5'', Txt ''s''],
       EvResults ''id-Diethyl_Ether_api_conformer-search''
         (Inr ''results of id-Diethyl_Ether_api_conformer-search''),
       EvOpen ''output/Diethyl_Ether_api_conformer-search_results.json'' None,
       EvPrint [Txt conformers_header],
       EvPrint [Txt ''conformers in results of id-Diethyl_Ether_api_conformer-search'']] \<and>
    fs (snd (collect_loop (mock_sdk rej) st1)) =
      (fs st1)(''output/Diethyl_Ether_api_conformer-search_results.json'' \<mapsto>
         File ''results of id-Diethyl_Ether_api_conformer-search'')"
proof -
  have d: "dirname ''output/Diethyl_Ether_api_conformer-search_results.json'' = foldername"
    using dirname_results_path [of "''Diethyl_Ether_api_conformer-search''"]
    by (simp add: results_path_def foldername_def)
  have p: "results_path ''Diethyl_Ether_api_conformer-search''
      = ''output/Diethyl_Ether_api_conformer-search_results.json''"
    by (simp add: results_path_def foldername_def)
  show ?thesis
    using assms
    by (simp add: collect_loop_def collect_defs mock_sdk_def mock_wait_def mock_get_def
        write_text_def d p)
qed

lemma mock_collect_blocked:
  fixes st1 :: "(workflow list, string, string) state"
  assumes "workflow_ids st1 = [''id-Diethyl_Ether_api_conformer-search'']"
    and "remote st1 =
      [\<lparr>wf_id = ''id-Diethyl_Ether_api_conformer-search'',
        wf_name = ''Diethyl_Ether_api_conformer-search'',
        wf_status = ''running'', wf_duration_seconds = ''0.0''\<rparr>]"
    and "fs st1 foldername = Some (File c)"
  shows "fst (collect_loop (mock_sdk rej) st1) = Inl NotADirectoryError \<and>
    trace (snd (collect_loop (mock_sdk rej) st1)) = trace st1 @
      [EvWait ''id-Diethyl_Ether_api_conformer-search'' None,
       EvGet ''id-Diethyl_Ether_api_conformer-search''
         (Inr \<lparr>wf_id = ''id-Diethyl_Ether_api_conformer-search'',
               wf_name = ''Diethyl_Ether_api_conformer-search'',
               wf_status = ''completed'', wf_duration_seconds = ''1.5''\<rparr>),
       EvPrint [Txt ''Workflow '', Txt ''Diethyl_Ether_api_conformer-search'',
                Txt '' completed with status: '', Txt ''completed''],
       EvPrint [Txt ''Workflow completed in '', Fixed2 ''1.5'', Txt ''s''],
       EvResults ''id-Diethyl_Ether_api_conformer-search''
         (Inr ''results of id-Diethyl_Ether_api_conformer-search''),
       EvOpen ''output/Diethyl_Ether_api_conformer-search_results.json''
         (Some NotADirectoryError)] \<and>
    fs (snd (collect_loop (mock_sdk rej) st1)) = fs st1"
proof -
  have d: "dirname ''output/Diethyl_Ether_api_conformer-search_results.json'' = foldername"
    using dirname_results_path [of "''Diethyl_Ether_api_conformer-search''"]
    by (simp add: results_path_def foldername_def)
  have p: "results_path ''Diethyl_Ether_api_conformer-search''
      = ''output/Diethyl_Ether_api_conformer-search_results.json''"
    by (simp add: results_path_def foldername_def)
  show ?thesis
    using assms
    by (simp add: collect_loop_def collect_defs mock_sdk_def mock_wait_def mock_get_def
        write_text_def d p)
qed

lemma made_Nil: "made [] = []"
  and made_append: "made (es @ es') = made es @ made es'"
  and made_Cons: "made (e # es) = makedirs_of e @ made es"
  by (simp_all add: made_def)

lemma first_phase_made:
  "list_all first_loop_event es \<Longrightarrow> list_all (\<lambda>e. makedirs_of e = []) es \<Longrightarrow> made es = []"
  by (induction es) (auto simp add: made_Nil made_Cons)

lemma second_loop_made: "list_all second_loop_event es \<Longrightarrow> made es = []"
  by (induction es)
     (auto simp add: made_Nil made_Cons makedirs_of_def second_loop_event_def split: event.splits)

lemma b64_CCOCC: "b64encode ''CCOCC'' = ''Q0NPQ0M=''"
  by (simp add: b64encode_def b64_char_def)

lemma mock_base64encode: "base64encode (mock_sdk rej) = b64encode"
  by (simp add: mock_sdk_def)

lemma run_of_phases:
  assumes "submit_phase k env fs0 r0 smiles names = (Inr (), st1)"
  shows "run k env fs0 r0 smiles names = collect_loop k st1"
  using assms by (simp add: run_def)

lemma run_of_failed_phase:
  assumes "submit_phase k env fs0 r0 smiles names = (Inl e, st1)"
  shows "run k env fs0 r0 smiles names = (Inl e, st1)"
  using assms by (simp add: run_def)

lemma mock_run_one:
  fixes fs0 :: filesystem
  assumes "fs0 = no_files \<or> fs0 = no_files(foldername \<mapsto> Dir)"
  shows "\<exists>st :: (workflow list, string, string) state.
    run (mock_sdk []) env fs0 [] [''CCOCC''] [''Diethyl_Ether''] = (Inr (), st) \<and>
    workflow_ids st = [''id-Diethyl_Ether_api_conformer-search''] \<and>
    requests (trace st) = [(VRef 18, payload_json ''Q0NPQ0M='' ''Diethyl_Ether'')] \<and>
    submits (trace st) =
      [(''Diethyl_Ether_api_conformer-search'',
        Inr \<lparr>wf_id = ''id-Diethyl_Ether_api_conformer-search'',
             wf_name = ''Diethyl_Ether_api_conformer-search'',
             wf_status = ''running'', wf_duration_seconds = ''0.0''\<rparr>)] \<and>
    gets (trace st) =
      [(''id-Diethyl_Ether_api_conformer-search'',
        Inr \<lparr>wf_id = ''id-Diethyl_Ether_api_conformer-search'',
             wf_name = ''Diethyl_Ether_api_conformer-search'',
             wf_status = ''completed'', wf_duration_seconds = ''1.5''\<rparr>)] \<and>
    calls (trace st) = wait_get_results ''id-Diethyl_Ether_api_conformer-search'' \<and>
    opens (trace st) = [(''output/Diethyl_Ether_api_conformer-search_results.json'', None)] \<and>
    fs st = (no_files(foldername \<mapsto> Dir))
      (''output/Diethyl_Ether_api_conformer-search_results.json'' \<mapsto>
         File ''results of id-Diethyl_Ether_api_conformer-search'') \<and>
    heap st = template_heap @ payload_block 18 ''Q0NPQ0M='' ''Diethyl_Ether''"
proof -
  from submit_phase_eval [OF mock_client_init mock_spec_one, of env fs0]
  obtain st1 :: "(workflow list, string, string) state" and es where s:
    "submit_phase (mock_sdk []) env fs0 [] [''CCOCC''] [''Diethyl_Ether''] = (Inr (), st1)"
    "remote st1 = [\<lparr>wf_id = ''id-Diethyl_Ether_api_conformer-search'',
        wf_name = ''Diethyl_Ether_api_conformer-search'',
        wf_status = ''running'', wf_duration_seconds = ''0.0''\<rparr>]"
    "workflow_ids st1 = ids_of
       [(''Diethyl_Ether_api_conformer-search'',
         Inr \<lparr>wf_id = ''id-Diethyl_Ether_api_conformer-search'',
              wf_name = ''Diethyl_Ether_api_conformer-search'',
              wf_status = ''running'', wf_duration_seconds = ''0.0''\<rparr>)]"
    "heap st1 = grow (base64encode (mock_sdk [])) (take 1 (zip [''CCOCC''] [''Diethyl_Ether'']))
       template_heap"
    "trace st1 = (if fs0 foldername = None then [EvMakedirs foldername] else [])
                 @ [EvClientInit None] @ es"
    "list_all first_loop_event es"
    "requests es = reqs_at (base64encode (mock_sdk [])) 18
       (take 1 (zip [''CCOCC''] [''Diethyl_Ether'']))"
    "submits es =
       [(''Diethyl_Ether_api_conformer-search'',
         Inr \<lparr>wf_id = ''id-Diethyl_Ether_api_conformer-search'',
              wf_name = ''Diethyl_Ether_api_conformer-search'',
              wf_status = ''running'', wf_duration_seconds = ''0.0''\<rparr>)]"
    "fs st1 = (if fs0 foldername = None then fs0(foldername \<mapsto> Dir) else fs0)"
    by blast
  have f1: "fs st1 = no_files(foldername \<mapsto> Dir)"
    using assms s(9) by (auto simp add: no_files_def)
  have ids: "workflow_ids st1 = [''id-Diethyl_Ether_api_conformer-search'']"
    using s(3) by (simp add: ids_of_def id_of_def)
  have ne: "fs st1 ''output/Diethyl_Ether_api_conformer-search_results.json'' \<noteq> Some Dir"
    by (simp add: f1 no_files_def foldername_def)
  have d: "fs st1 foldername = Some Dir"
    by (simp add: f1)
  note c = mock_collect_one [OF ids s(2) d ne, of "[]"]
  let ?st = "snd (collect_loop (mock_sdk []) st1)"
  have cl: "collect_loop (mock_sdk []) st1 = (Inr (), ?st)"
    using c by (simp add: prod_eq_iff)
  have run: "run (mock_sdk []) env fs0 [] [''CCOCC''] [''Diethyl_Ether''] = (Inr (), ?st)"
    using run_of_phases [OF s(1)] cl by simp
  note fr = collect_loop_frame [OF cl]
  note p1 = first_loop_event_projections [OF s(6)]
  have tr: "trace ?st = (if fs0 foldername = None then [EvMakedirs foldername] else [])
      @ [EvClientInit None] @ es @
      [EvWait ''id-Diethyl_Ether_api_conformer-search'' None,
       EvGet ''id-Diethyl_Ether_api_conformer-search''
         (Inr \<lparr>wf_id = ''id-Diethyl_Ether_api_conformer-search'',
               wf_name = ''Diethyl_Ether_api_conformer-search'',
               wf_status = ''completed'', wf_duration_seconds = ''1.5''\<rparr>),
       EvPrint [Txt ''Workflow '', Txt ''Diethyl_Ether_api_conformer-search'',
                Txt '' completed with status: '', Txt ''completed''],
       EvPrint [Txt ''Workflow completed in '', Fixed2 ''1.5'', Txt ''s''],
       EvResults ''id-Diethyl_Ether_api_conformer-search''
         (Inr ''results of id-Diethyl_Ether_api_conformer-search''),
       EvOpen ''output/Diethyl_Ether_api_conformer-search_results.json'' None,
       EvPrint [Txt conformers_header],
       EvPrint [Txt ''conformers in results of id-Diethyl_Ether_api_conformer-search'']]"
    using c s(5) by simp
  show ?thesis
    apply (rule exI [where x = ?st])
    using run fr ids s(4,7,8) p1 c
    apply (simp add: tr trace_simps mock_base64encode b64_CCOCC wait_get_results_def f1
        length_template_heap)
    done
qed

section \<open>C5: the status read after wait\<close>

lemma collect_body_get_terminal:
  assumes c: "wait_contract k finished" and b: "collect_body k i st = (r, st')"
  shows "extends get_terminal st st'"
  using b
proof (rule collect_body_rel)
  fix st r st'
  assume "do_wait k i st = (r, st')"
  from do_wait_spec [OF this] show "extends get_terminal st st'"
    by (intro extends_one [where e = "EvWait i (fst (wait k i (remote st)))"])
       (simp_all add: get_terminal_def)
next
  fix u st0 st r st'
  assume w: "do_wait k i st0 = (Inr u, st)" and g: "do_get k i st = (r, st')"
  from do_wait_spec [OF w] have "wait k i (remote st0) = (None, remote st)"
    by (cases "wait k i (remote st0)") (auto simp add: sdk_outcome_def split: option.splits)
  with c have fin: "finished (remote st) i"
    unfolding wait_contract_def by blast
  have "get_terminal (EvGet i (fst (get k i (remote st))))"
  proof (cases "get k i (remote st)")
    case (Pair a s')
    show ?thesis
    proof (cases a)
      case (Inl msg)
      with Pair show ?thesis by (simp add: get_terminal_def)
    next
      case (Inr w)
      with Pair fin c have "terminal (wf_status w)"
        unfolding wait_contract_def by blast
      with Pair Inr show ?thesis by (simp add: get_terminal_def)
    qed
  qed
  with do_get_spec [OF g] show "extends get_terminal st st'"
    by (intro extends_one [where e = "EvGet i (fst (get k i (remote st)))"]) simp_all
next
  fix w st r st'
  assume "do_report w st = (r, st')"
  from do_report_spec [OF this] show "extends get_terminal st st'"
    by (simp add: extends_def get_terminal_def)
next
  fix st r st'
  assume "do_results k i st = (r, st')"
  from do_results_spec [OF this] show "extends get_terminal st st'"
    by (intro extends_one [where e = "EvResults i (fst (results k i (remote st)))"])
       (simp_all add: get_terminal_def)
next
  fix w :: workflow and res st r st'
  assume "do_write (results_path (wf_name w)) (model_dump_json k res) st = (r, st')"
  from do_write_spec [OF this] show "extends get_terminal st st'"
    by (auto simp add: extends_def get_terminal_def split: sum.splits)
next
  fix res st r st'
  assume "do_conformers k res st = (r, st')"
  from do_conformers_spec [OF this] show "extends get_terminal st st'"
    by (auto simp add: extends_def get_terminal_def split: sum.splits)
qed (rule extends_trans)

lemma collect_loop_get_terminal:
  assumes "wait_contract k finished" and "collect_loop k st = (r, st')"
  shows "extends get_terminal st st'"
  using assms(2) unfolding collect_loop_def
  by (rule for_each_rel)
     (auto intro: collect_body_get_terminal [OF assms(1)] extends_refl extends_trans)

lemma get_terminal_gets:
  "list_all get_terminal tr \<Longrightarrow> (i, Inr w) \<in> set (gets tr) \<Longrightarrow> terminal (wf_status w)"
  by (induction tr) (auto simp add: trace_simps get_terminal_def split: event.splits)

lemma first_phase_trace:
  fixes k :: "('s, 'req, 'res) sdk"
  assumes "submit_phase k env fs0 r0 smiles names = (r1, st1)"
  shows "calls (trace st1) = [] \<and> gets (trace st1) = [] \<and> opens (trace st1) = [] \<and>
    workflow_ids st1 = ids_of (submits (trace st1)) \<and>
    made (trace st1) = (if fs0 foldername = None then [foldername] else []) \<and>
    (fs0 foldername = None \<longrightarrow> (\<exists>es. trace st1 = EvMakedirs foldername # es)) \<and>
    fs st1 = (if fs0 foldername = None then fs0(foldername \<mapsto> Dir) else fs0)"
proof -
  from submit_phase_spec [OF assms] obtain c evs es where s:
    "trace st1 = (if fs0 foldername = None then [EvMakedirs foldername] else [])
                 @ [EvClientInit c] @ es"
    "list_all first_loop_event es" "submits es = evs" "workflow_ids st1 = ids_of evs"
    "fs st1 = (if fs0 foldername = None then fs0(foldername \<mapsto> Dir) else fs0)"
    by blast
  have m: "made es = []"
    using s(2) by (induction es)
      (auto simp add: made_Nil made_Cons makedirs_of_def first_loop_event_def
        split: event.splits)
  have "submits (trace st1) = evs"
    using s(1,3) by (simp add: trace_simps)
  with first_loop_event_projections [OF s(2)] s m show ?thesis
    by (auto simp add: trace_simps made_Nil made_Cons made_append makedirs_of_def)
qed

lemma run_get_terminal:
  fixes k :: "('s, 'req, 'res) sdk"
  assumes "wait_contract k finished" and "run k env fs0 r0 smiles names = (r, st)"
  shows "list_all get_terminal (trace st)"
proof -
  from run_split [OF assms(2)] obtain r1 and st1 :: "('s, 'req, 'res) state" where
    sp: "submit_phase k env fs0 r0 smiles names = (r1, st1)" and
    c: "case r1 of Inl e \<Rightarrow> r = Inl e \<and> st = st1 | Inr u \<Rightarrow> collect_loop k st1 = (r, st)"
    by blast
  from submit_phase_spec [OF sp] obtain cl es where s:
    "trace st1 = (if fs0 foldername = None then [EvMakedirs foldername] else [])
                 @ [EvClientInit cl] @ es"
    "list_all first_loop_event es"
    by blast
  have "list_all get_terminal es"
    using s(2) by (induction es)
      (auto simp add: get_terminal_def first_loop_event_def split: event.splits)
  with s(1) have t1: "list_all get_terminal (trace st1)"
    by (simp add: get_terminal_def)
  show ?thesis
  proof (cases r1)
    case (Inl e)
    with c t1 show ?thesis by simp
  next
    case (Inr u)
    with c have "collect_loop k st1 = (r, st)" by simp
    from collect_loop_get_terminal [OF assms(1) this] t1 show ?thesis
      by (auto simp add: extends_def)
  qed
qed

text \<open>
  C5. Assume the contract of the collaborator: \<open>wait(id)\<close> returns only when the workflow
  has reached a terminal state, and \<open>get\<close> on a workflow in a terminal state reports a
  terminal status. Then in every run of the script every workflow that \<open>get\<close> returned
  has the status \<open>completed\<close> or \<open>failed\<close>: the script calls \<open>get(id)\<close> only right after
  \<open>wait(id)\<close> has returned.
\<close>

theorem C5_status_terminal_after_wait:
  assumes "wait_contract k finished"
    and "run k env fs0 r0 smiles names = (r, st)"
    and "(i, Inr w) \<in> set (gets (trace st))"
  shows "terminal (wf_status w)"
  using run_get_terminal [OF assms(1,2)] assms(3) by (rule get_terminal_gets)

lemma mock_wait_contract: "wait_contract (mock_sdk rej) mock_finished"
  unfolding wait_contract_def
proof (intro conjI allI impI)
  fix i s s'
  assume "wait (mock_sdk rej) i s = (None, s')"
  then have s': "s' = map (\<lambda>w. if wf_id w = i
      then w\<lparr>wf_status := ''completed'', wf_duration_seconds := ''1.5''\<rparr> else w) s"
    by (simp add: mock_sdk_def mock_wait_def)
  show "mock_finished s' i"
    unfolding s' mock_finished_def
    by (induction s) (auto simp add: terminal_def)
next
  fix i s w s'
  assume a: "get (mock_sdk rej) i s = (Inr w, s') \<and> mock_finished s i"
  then have f: "find (\<lambda>w. wf_id w = i) s = Some w"
    by (auto simp add: mock_sdk_def mock_get_def split: option.splits)
  then have "w \<in> set s" "wf_id w = i"
    by (auto simp add: find_Some_iff)
  with a show "terminal (wf_status w)"
    by (auto simp add: mock_finished_def list_all_iff)
qed

theorem C5_witness:
  "wait_contract (mock_sdk []) mock_finished \<and>
   (\<exists>st. run (mock_sdk []) Map.empty no_files [] [''CCOCC''] [''Diethyl_Ether'']
            = (Inr (), st) \<and>
      gets (trace st) =
        [(''id-Diethyl_Ether_api_conformer-search'',
          Inr \<lparr>wf_id = ''id-Diethyl_Ether_api_conformer-search'',
               wf_name = ''Diethyl_Ether_api_conformer-search'',
               wf_status = ''completed'', wf_duration_seconds = ''1.5''\<rparr>)]) \<and>
   terminal ''completed''"
proof -
  from mock_run_one [of no_files Map.empty]
  obtain st :: "(workflow list, string, string) state" where st:
    "run (mock_sdk []) Map.empty no_files [] [''CCOCC''] [''Diethyl_Ether''] = (Inr (), st)"
    "gets (trace st) =
       [(''id-Diethyl_Ether_api_conformer-search'',
         Inr \<lparr>wf_id = ''id-Diethyl_Ether_api_conformer-search'',
              wf_name = ''Diethyl_Ether_api_conformer-search'',
              wf_status = ''completed'', wf_duration_seconds = ''1.5''\<rparr>)]"
    by auto
  have "terminal (wf_status \<lparr>wf_id = ''id-Diethyl_Ether_api_conformer-search'',
      wf_name = ''Diethyl_Ether_api_conformer-search'',
      wf_status = ''completed'', wf_duration_seconds = ''1.5''\<rparr>)"
    by (rule C5_status_terminal_after_wait [OF mock_wait_contract st(1)]) (simp add: st(2))
  with st mock_wait_contract show ?thesis
    by auto
qed

end
